theory Spec2Isabelle
  imports Complex_Main "HOL-Library.Sublist" "HOL-Library.Word"
begin

section \<open>Time values of the host language\<close>

text \<open>
  The planner is a TypeScript program; its calendar logic runs on the host's \<open>Date\<close>
  objects.  A \<open>Date\<close> is modelled by its time value, an integer number of milliseconds
  since 1970-01-01T00:00:00Z, and the \<open>Date\<close> methods the program calls are written
  out below after ECMA-262 (section "Date Objects"): \<open>Day\<close>, \<open>TimeWithinDay\<close>,
  \<open>DayFromYear\<close>, \<open>YearFromTime\<close>, \<open>MonthFromTime\<close>, \<open>DateFromTime\<close>,
  \<open>WeekDay\<close>, \<open>MakeDay\<close>, \<open>MakeDate\<close>.

  Modelling assumptions, stated once:
  \<^item> the local time zone: the week-start helper \<open>getMonday\<close> takes the zone as the host
    has it, a time zone adjustment that may change from instant to instant (clock changes
    included); the other functions are embedded for a zone without clock changes, a fixed
    offset \<open>tza\<close> (milliseconds east of UTC) that every such local-time method takes as
    its first argument;
  \<^item> every \<open>Date\<close> is valid (its time value is not \<open>NaN\<close>); where the program builds a
    \<open>Date\<close> from a string the parse is an explicit \<open>option\<close>;
  \<^item> numbers are mathematical integers and rationals: the quotients the program takes
    stay far inside the range where double-precision division and \<open>Math.ceil\<close>,
    \<open>Math.floor\<close> agree with the exact result.
\<close>

definition msPerDay :: int where
  "msPerDay = 86400000"

definition Day :: "int \<Rightarrow> int" where
  "Day t = t div msPerDay"

definition TimeWithinDay :: "int \<Rightarrow> int" where
  "TimeWithinDay t = t mod msPerDay"

definition DaysInYear :: "int \<Rightarrow> int" where
  "DaysInYear y =
     (if y mod 4 \<noteq> 0 then 365
      else if y mod 100 \<noteq> 0 then 366
      else if y mod 400 \<noteq> 0 then 365
      else 366)"

definition DayFromYear :: "int \<Rightarrow> int" where
  "DayFromYear y =
     365 * (y - 1970) + (y - 1969) div 4 - (y - 1901) div 100 + (y - 1601) div 400"

lemma div_succ:
  fixes x c :: int
  assumes "0 < c"
  shows "(x + 1) div c = x div c + (if (x + 1) mod c = 0 then 1 else 0)"
proof (cases "x mod c + 1 < c")
  case True
  have e: "x + 1 = c * (x div c) + (x mod c + 1)" by simp
  have r: "0 \<le> x mod c + 1" using assms by (simp add: add_nonneg_nonneg)
  have "(x + 1) div c = x div c" using int_div_pos_eq [OF e r True] .
  moreover have "(x + 1) mod c = x mod c + 1" using int_mod_pos_eq [OF e r True] .
  moreover have "0 \<le> x mod c" using assms by simp
  ultimately show ?thesis by simp
next
  case False
  have "x mod c < c" using assms by simp
  with False have m: "x mod c = c - 1" by simp
  have "c * (x div c) + x mod c = x" by simp
  then have "c * (x div c) + (c - 1) = x" using m by simp
  then have e: "x + 1 = c * (x div c + 1) + 0" by (simp add: algebra_simps)
  have "(x + 1) div c = x div c + 1" using int_div_pos_eq [OF e _ assms] by simp
  moreover have "(x + 1) mod c = 0" using int_mod_pos_eq [OF e _ assms] by simp
  ultimately show ?thesis by simp
qed

lemma DayFromYear_Suc: "DayFromYear (y + 1) = DayFromYear y + DaysInYear y"
proof -
  have a: "(y + 1 - 1969) div 4 = (y - 1969) div 4 + (if y mod 4 = 0 then 1 else 0)"
  proof -
    have "y - 1969 + 1 = y + (- 492) * 4" by simp
    then have "(y - 1969 + 1) mod 4 = 0 \<longleftrightarrow> y mod 4 = 0" by (simp only: mod_mult_self1)
    then show ?thesis using div_succ [of 4 "y - 1969"] by (simp add: algebra_simps)
  qed
  have b: "(y + 1 - 1901) div 100 = (y - 1901) div 100 + (if y mod 100 = 0 then 1 else 0)"
  proof -
    have "y - 1901 + 1 = y + (- 19) * 100" by simp
    then have "(y - 1901 + 1) mod 100 = 0 \<longleftrightarrow> y mod 100 = 0" by (simp only: mod_mult_self1)
    then show ?thesis using div_succ [of 100 "y - 1901"] by (simp add: algebra_simps)
  qed
  have c: "(y + 1 - 1601) div 400 = (y - 1601) div 400 + (if y mod 400 = 0 then 1 else 0)"
  proof -
    have "y - 1601 + 1 = y + (- 4) * 400" by simp
    then have "(y - 1601 + 1) mod 400 = 0 \<longleftrightarrow> y mod 400 = 0" by (simp only: mod_mult_self1)
    then show ?thesis using div_succ [of 400 "y - 1601"] by (simp add: algebra_simps)
  qed
  have d: "y mod 4 = 0" if "y mod 100 = 0"
  proof -
    have "100 dvd y" using that by (simp add: mod_eq_0_iff_dvd)
    moreover have "(4::int) dvd 100" by simp
    ultimately have "4 dvd y" by (rule dvd_trans [rotated])
    then show ?thesis by (simp add: mod_eq_0_iff_dvd)
  qed
  have e: "y mod 100 = 0" if "y mod 400 = 0"
  proof -
    have "400 dvd y" using that by (simp add: mod_eq_0_iff_dvd)
    moreover have "(100::int) dvd 400" by simp
    ultimately have "100 dvd y" by (rule dvd_trans [rotated])
    then show ?thesis by (simp add: mod_eq_0_iff_dvd)
  qed
  show ?thesis
    unfolding DayFromYear_def DaysInYear_def a b c using d e by auto
qed

lemma DaysInYear_bounds: "365 \<le> DaysInYear y" "DaysInYear y \<le> 366"
  by (simp_all add: DaysInYear_def)

lemma DayFromYear_pred: "DayFromYear (y - 1) < DayFromYear y"
  using DayFromYear_Suc [of "y - 1"] DaysInYear_bounds(1) [of "y - 1"] by simp

text \<open>
  \<open>YearFromTime t\<close> is the largest year \<open>y\<close> with \<open>DayFromYear y \<le> Day t\<close>.  It is found
  by walking down from a year that is not too small: every year has at least 365 and at
  most 366 days.
\<close>

function yearDown :: "int \<Rightarrow> int \<Rightarrow> int" where
  "yearDown y d = (if DayFromYear y \<le> d then y else yearDown (y - 1) d)"
  by pat_completeness auto
termination
proof (relation "measure (\<lambda>(y, d). nat (DayFromYear y - d))")
  show "wf (measure (\<lambda>(y, d). nat (DayFromYear y - d)))" by simp
next
  fix y d :: int
  assume "\<not> DayFromYear y \<le> d"
  then show "((y - 1, d), (y, d)) \<in> measure (\<lambda>(y, d). nat (DayFromYear y - d))"
    using DayFromYear_pred [of y] by simp
qed

definition YearFromTime :: "int \<Rightarrow> int" where
  "YearFromTime t =
     (let d = Day t in yearDown (1970 + (if 0 \<le> d then d div 365 else d div 366)) d)"

definition InLeapYear :: "int \<Rightarrow> int" where
  "InLeapYear t = (if DaysInYear (YearFromTime t) = 366 then 1 else 0)"

definition DayWithinYear :: "int \<Rightarrow> int" where
  "DayWithinYear t = Day t - DayFromYear (YearFromTime t)"

definition MonthFromTime :: "int \<Rightarrow> int" where
  "MonthFromTime t =
     (let d = DayWithinYear t; l = InLeapYear t in
      if d < 31 then 0
      else if d < 59 + l then 1
      else if d < 90 + l then 2
      else if d < 120 + l then 3
      else if d < 151 + l then 4
      else if d < 181 + l then 5
      else if d < 212 + l then 6
      else if d < 243 + l then 7
      else if d < 273 + l then 8
      else if d < 304 + l then 9
      else if d < 334 + l then 10
      else 11)"

definition DateFromTime :: "int \<Rightarrow> int" where
  "DateFromTime t =
     (let d = DayWithinYear t; l = InLeapYear t; m = MonthFromTime t in
      if m = 0 then d + 1
      else if m = 1 then d - 30
      else if m = 2 then d - 58 - l
      else if m = 3 then d - 89 - l
      else if m = 4 then d - 119 - l
      else if m = 5 then d - 150 - l
      else if m = 6 then d - 180 - l
      else if m = 7 then d - 211 - l
      else if m = 8 then d - 242 - l
      else if m = 9 then d - 272 - l
      else if m = 10 then d - 303 - l
      else d - 333 - l)"

definition WeekDay :: "int \<Rightarrow> int" where
  "WeekDay t = (Day t + 4) mod 7"

text \<open>
  \<open>MakeDay year month date\<close>: the day number of the \<open>date\<close>-th day counted from the first
  of the month, months beyond 0..11 carrying into the year.
\<close>

definition monthStart :: "int \<Rightarrow> int \<Rightarrow> int" where
  "monthStart mn l =
     (if mn = 0 then 0
      else if mn = 1 then 31
      else if mn = 2 then 59 + l
      else if mn = 3 then 90 + l
      else if mn = 4 then 120 + l
      else if mn = 5 then 151 + l
      else if mn = 6 then 181 + l
      else if mn = 7 then 212 + l
      else if mn = 8 then 243 + l
      else if mn = 9 then 273 + l
      else if mn = 10 then 304 + l
      else 334 + l)"

definition MakeDay :: "int \<Rightarrow> int \<Rightarrow> int \<Rightarrow> int" where
  "MakeDay year month date =
     (let ym = year + month div 12; mn = month mod 12 in
      DayFromYear ym + monthStart mn (if DaysInYear ym = 366 then 1 else 0) + date - 1)"

definition MakeDate :: "int \<Rightarrow> int \<Rightarrow> int" where
  "MakeDate day time = day * msPerDay + time"

definition LocalTime :: "int \<Rightarrow> int \<Rightarrow> int" where
  "LocalTime tza t = t + tza"

definition UTC :: "int \<Rightarrow> int \<Rightarrow> int" where
  "UTC tza t = t - tza"

subsection \<open>The methods of Date the program calls\<close>

definition getFullYear :: "int \<Rightarrow> int \<Rightarrow> int" where
  "getFullYear tza t = YearFromTime (LocalTime tza t)"

definition getMonth :: "int \<Rightarrow> int \<Rightarrow> int" where
  "getMonth tza t = MonthFromTime (LocalTime tza t)"

definition getDate :: "int \<Rightarrow> int \<Rightarrow> int" where
  "getDate tza t = DateFromTime (LocalTime tza t)"

definition getDay :: "int \<Rightarrow> int \<Rightarrow> int" where
  "getDay tza t = WeekDay (LocalTime tza t)"

definition getHours :: "int \<Rightarrow> int \<Rightarrow> int" where
  "getHours tza t = (LocalTime tza t div 3600000) mod 24"

definition getMinutes :: "int \<Rightarrow> int \<Rightarrow> int" where
  "getMinutes tza t = (LocalTime tza t div 60000) mod 60"

text \<open>\<open>d.setDate(n)\<close>: the time value \<open>d\<close> holds afterwards.\<close>

definition setDate :: "int \<Rightarrow> int \<Rightarrow> int \<Rightarrow> int" where
  "setDate tza t dt =
     (let lt = LocalTime tza t in
      UTC tza (MakeDate (MakeDay (YearFromTime lt) (MonthFromTime lt) dt) (TimeWithinDay lt)))"

text \<open>\<open>d.setHours(0, 0, 0, 0)\<close>.\<close>

definition setHours0 :: "int \<Rightarrow> int \<Rightarrow> int" where
  "setHours0 tza t = UTC tza (MakeDate (Day (LocalTime tza t)) 0)"

text \<open>\<open>new Date(year, month, date)\<close>: local midnight; years 0..99 mean 1900..1999.\<close>

definition DateYMD :: "int \<Rightarrow> int \<Rightarrow> int \<Rightarrow> int \<Rightarrow> int" where
  "DateYMD tza year month date =
     UTC tza (MakeDate (MakeDay (if 0 \<le> year \<and> year \<le> 99 then 1900 + year else year) month date) 0)"

subsection \<open>Local time in a zone with clock changes\<close>

text \<open>
  The host turns a time value into local time and back by its time zone adjustment
  \<open>LocalTZA(t, isUTC)\<close> (ECMA-262): for \<open>isUTC\<close> the offset in force at the instant
  \<open>t\<close>, otherwise the offset by which the local time \<open>t\<close> is read, which for a local
  time that a clock change skips or repeats is the offset before the change.  A \<open>Zone\<close>
  is that function; \<open>LocalTimeIn\<close> and \<open>UTCIn\<close> are \<open>LocalTime\<close> and \<open>UTC\<close> of
  ECMA-262, and the methods below are the ones \<open>getMonday\<close> calls.  \<open>fixedZone tza\<close>
  is the zone without clock changes.

  Two properties of a zone are named.  The zone is \<open>faithful\<close> when every local time
  that its clocks show is read back as itself, which the rule above for skipped and
  repeated times gives.  A local time \<open>x\<close> is read \<open>onItsDay\<close> when the instant the zone
  gives for it has a local time on the calendar day of \<open>x\<close>: so it is for every local
  time that the clocks show, and for a skipped one unless the skip passes the end of the
  day.  \<open>springForward T a b\<close> is the zone whose clocks go at the instant \<open>T\<close> from the
  offset \<open>a\<close> to the offset \<open>b\<close>.
\<close>

type_synonym Zone = "int \<Rightarrow> bool \<Rightarrow> int"

definition LocalTimeIn :: "Zone \<Rightarrow> int \<Rightarrow> int" where
  "LocalTimeIn z t = t + z t True"

definition UTCIn :: "Zone \<Rightarrow> int \<Rightarrow> int" where
  "UTCIn z t = t - z t False"

definition fixedZone :: "int \<Rightarrow> Zone" where
  "fixedZone tza = (\<lambda>t isUTC. tza)"

definition getDayIn :: "Zone \<Rightarrow> int \<Rightarrow> int" where
  "getDayIn z t = WeekDay (LocalTimeIn z t)"

definition getDateIn :: "Zone \<Rightarrow> int \<Rightarrow> int" where
  "getDateIn z t = DateFromTime (LocalTimeIn z t)"

definition setDateIn :: "Zone \<Rightarrow> int \<Rightarrow> int \<Rightarrow> int" where
  "setDateIn z t dt =
     (let lt = LocalTimeIn z t in
      UTCIn z (MakeDate (MakeDay (YearFromTime lt) (MonthFromTime lt) dt) (TimeWithinDay lt)))"

definition setHours0In :: "Zone \<Rightarrow> int \<Rightarrow> int" where
  "setHours0In z t = UTCIn z (MakeDate (Day (LocalTimeIn z t)) 0)"

definition faithful :: "Zone \<Rightarrow> bool" where
  "faithful z = (\<forall>t. LocalTimeIn z (UTCIn z (LocalTimeIn z t)) = LocalTimeIn z t)"

definition onItsDay :: "Zone \<Rightarrow> int \<Rightarrow> bool" where
  "onItsDay z x = (Day (LocalTimeIn z (UTCIn z x)) = Day x)"

definition springForward :: "int \<Rightarrow> int \<Rightarrow> int \<Rightarrow> Zone" where
  "springForward T a b =
     (\<lambda>t isUTC. if isUTC then (if t < T then a else b) else (if t < T + b then a else b))"

subsection \<open>Facts about the calendar\<close>

lemma yearDown_le: "DayFromYear (yearDown y d) \<le> d"
  by (induction y d rule: yearDown.induct) (simp del: yearDown.simps add: yearDown.simps [of y d for y d])

lemma yearDown_gt: "d < DayFromYear (y + 1) \<Longrightarrow> d < DayFromYear (yearDown y d + 1)"
proof (induction y d rule: yearDown.induct)
  case (1 y d)
  show ?case
  proof (cases "DayFromYear y \<le> d")
    case True
    then show ?thesis using "1.prems" by (simp add: yearDown.simps [of y d])
  next
    case False
    then have "d < DayFromYear (y - 1 + 1)" by simp
    from "1.IH" [OF False this] False show ?thesis by (simp add: yearDown.simps [of y d])
  qed
qed

lemma DayFromYear_ge: "1970 \<le> y \<Longrightarrow> 365 * (y - 1970) \<le> DayFromYear y"
proof (induction y rule: int_ge_induct)
  case base
  show ?case by (simp add: DayFromYear_def)
next
  case (step i)
  then show ?case using DayFromYear_Suc [of i] DaysInYear_bounds(1) [of i] by simp
qed

lemma DayFromYear_le: "y \<le> 1970 \<Longrightarrow> 366 * (y - 1970) \<le> DayFromYear y"
proof (induction y rule: int_le_induct)
  case base
  show ?case by (simp add: DayFromYear_def)
next
  case (step i)
  then show ?case using DayFromYear_Suc [of "i - 1"] DaysInYear_bounds(2) [of "i - 1"] by simp
qed

lemma DayFromYear_mono: "y \<le> y' \<Longrightarrow> DayFromYear y \<le> DayFromYear y'"
proof (induction y' rule: int_ge_induct)
  case base
  show ?case by simp
next
  case (step i)
  then show ?case using DayFromYear_Suc [of i] DaysInYear_bounds(1) [of i] by simp
qed

lemma YearFromTime_bounds:
  "DayFromYear (YearFromTime t) \<le> Day t" "Day t < DayFromYear (YearFromTime t + 1)"
proof -
  show "DayFromYear (YearFromTime t) \<le> Day t"
    by (simp add: YearFromTime_def Let_def yearDown_le del: yearDown.simps)
next
  define d where "d = Day t"
  define y0 where "y0 = 1970 + (if 0 \<le> d then d div 365 else d div 366)"
  have "d < DayFromYear (y0 + 1)"
  proof (cases "0 \<le> d")
    case True
    then have "0 \<le> d div 365" by simp
    then have "365 * (y0 + 1 - 1970) \<le> DayFromYear (y0 + 1)"
      using True by (intro DayFromYear_ge) (simp add: y0_def)
    moreover have "d < 365 * (d div 365 + 1)" 
      using div_mult_mod_eq [of d 365] pos_mod_bound [of 365 d] by simp
    ultimately show ?thesis using True by (simp add: y0_def)
  next
    case False
    then have "d div 366 < 0" by simp
    then have "366 * (y0 + 1 - 1970) \<le> DayFromYear (y0 + 1)"
      using False by (intro DayFromYear_le) (simp add: y0_def)
    moreover have "d < 366 * (d div 366 + 1)" 
      using div_mult_mod_eq [of d 366] pos_mod_bound [of 366 d] by simp
    ultimately show ?thesis using False by (simp add: y0_def)
  qed
  then have "d < DayFromYear (yearDown y0 d + 1)" by (rule yearDown_gt)
  then show "Day t < DayFromYear (YearFromTime t + 1)"
    unfolding YearFromTime_def Let_def y0_def d_def .
qed

lemma YearFromTime_le_iff: "YearFromTime t \<le> y \<longleftrightarrow> Day t < DayFromYear (y + 1)"
proof
  assume "YearFromTime t \<le> y"
  then have "DayFromYear (YearFromTime t + 1) \<le> DayFromYear (y + 1)"
    by (intro DayFromYear_mono) simp
  then show "Day t < DayFromYear (y + 1)" using YearFromTime_bounds(2) [of t] by simp
next
  assume a: "Day t < DayFromYear (y + 1)"
  show "YearFromTime t \<le> y"
  proof (rule ccontr)
    assume "\<not> YearFromTime t \<le> y"
    then have "y + 1 \<le> YearFromTime t" by simp
    then have "DayFromYear (y + 1) \<le> DayFromYear (YearFromTime t)" by (rule DayFromYear_mono)
    then show False using a YearFromTime_bounds(1) [of t] by simp
  qed
qed


lemma MonthFromTime_range: "0 \<le> MonthFromTime t" "MonthFromTime t \<le> 11"
  by (simp_all add: MonthFromTime_def Let_def)

lemma MakeDay_DateFromTime:
  "MakeDay (YearFromTime t) (MonthFromTime t) (DateFromTime t + k) = Day t + k"
proof -
  have m: "MonthFromTime t div 12 = 0" "MonthFromTime t mod 12 = MonthFromTime t"
    using MonthFromTime_range [of t] by simp_all
  have "monthStart (MonthFromTime t) (InLeapYear t) + DateFromTime t - 1 = DayWithinYear t"
    by (simp add: monthStart_def DateFromTime_def MonthFromTime_def Let_def)
  then show ?thesis
    unfolding MakeDay_def Let_def m by (simp add: InLeapYear_def DayWithinYear_def)
qed

lemma setDate_getDate: "setDate tza t (getDate tza t + k) = t + k * msPerDay"
proof -
  have "Day (t + tza) * msPerDay + TimeWithinDay (t + tza) = t + tza"
    by (simp add: Day_def TimeWithinDay_def)
  then show ?thesis
    unfolding setDate_def getDate_def Let_def LocalTime_def UTC_def MakeDate_def
      MakeDay_DateFromTime
    by (simp add: algebra_simps)
qed

lemma Day_add_days: "Day (t + k * msPerDay) = Day t + k"
  by (simp add: Day_def msPerDay_def)



lemma getDay_range: "0 \<le> getDay tza t" "getDay tza t < 7"
  by (simp_all add: getDay_def WeekDay_def)


lemma div_mult_le_int:
  fixes x m :: int
  assumes "0 < m"
  shows "(x div m) * m \<le> x" "x < (x div m + 1) * m"
proof -
  have e: "(x div m) * m + x mod m = x" by simp
  have "0 \<le> x mod m" "x mod m < m" using assms by simp_all
  with e show "(x div m) * m \<le> x" by linarith
  have "(x div m + 1) * m = (x div m) * m + m" by (simp add: algebra_simps)
  with e \<open>x mod m < m\<close> show "x < (x div m + 1) * m" by linarith
qed

lemma le_div_int:
  fixes x m a :: int
  assumes "0 < m" "a * m \<le> x"
  shows "a \<le> x div m"
proof -
  have "(a * m) div m \<le> x div m" using assms by (intro zdiv_mono1) simp_all
  then show ?thesis using assms(1) by simp
qed

lemma div_less_int:
  fixes x m a :: int
  assumes "0 < m" "x < a * m"
  shows "x div m < a"
proof (rule ccontr)
  assume "\<not> x div m < a"
  then have "a \<le> x div m" by simp
  then have "a * m \<le> (x div m) * m" using assms(1) by (intro mult_right_mono) simp_all
  then show False using div_mult_le_int(1) [OF assms(1), of x] assms(2) by linarith
qed

lemma monday_closed: "(n::int) - ((n + 4) mod 7 + 6) mod 7 = 7 * ((n + 3) div 7) - 3"
  by presburger

lemma week_div: "7 * q - 3 \<le> (n::int) \<Longrightarrow> n < 7 * q + 4 \<Longrightarrow> (n + 3) div 7 = q"
  by presburger

lemma monday_weekday: "(7 * (q::int) - 3 + 4) mod 7 = 1"
  by presburger

lemma YearFromTime_unique:
  assumes "DayFromYear y \<le> Day t" "Day t < DayFromYear (y + 1)"
  shows "YearFromTime t = y"
proof -
  have "YearFromTime t \<le> y" using assms(2) by (simp add: YearFromTime_le_iff)
  moreover have "\<not> YearFromTime t \<le> y - 1"
    using assms(1) YearFromTime_le_iff [of t "y - 1"] by simp
  ultimately show ?thesis by simp
qed

lemma getDay_plus3: "getDay tza D = 1 \<Longrightarrow> getDay tza (D + 3 * msPerDay) = 4"
proof -
  assume a: "getDay tza D = 1"
  have "Day (D + tza + 3 * msPerDay) = Day (D + tza) + 3" by (rule Day_add_days)
  then have "Day (D + 3 * msPerDay + tza) + 4 = (Day (D + tza) + 4) + 3" by (simp add: algebra_simps)
  then have "(Day (D + 3 * msPerDay + tza) + 4) mod 7 = ((Day (D + tza) + 4) mod 7 + 3) mod 7"
    by (simp add: mod_simps)
  then show ?thesis using a by (simp add: getDay_def WeekDay_def LocalTime_def)
qed

lemma MonthFromTime_jan1:
  assumes "Day t = DayFromYear y"
  shows "YearFromTime t = y" "MonthFromTime t = 0"
proof -
  show y: "YearFromTime t = y"
    using assms DayFromYear_Suc [of y] DaysInYear_bounds(1) [of y]
    by (intro YearFromTime_unique) simp_all
  show "MonthFromTime t = 0"
    using assms y by (simp add: MonthFromTime_def DayWithinYear_def Let_def)
qed

lemma MonthFromTime_dec28:
  assumes "Day t = DayFromYear (y + 1) - 4"
  shows "YearFromTime t = y" "MonthFromTime t = 11"
proof -
  show y: "YearFromTime t = y"
    using assms DayFromYear_Suc [of y] DaysInYear_bounds(1) [of y]
    by (intro YearFromTime_unique) simp_all
  have "DayWithinYear t = DaysInYear y - 4"
    using assms y DayFromYear_Suc [of y] by (simp add: DayWithinYear_def)
  then show "MonthFromTime t = 11"
    using y by (simp add: MonthFromTime_def InLeapYear_def Let_def DaysInYear_def)
qed

lemma MakeDay_december:
  "MakeDay y 11 dt = DayFromYear (y + 1) - 32 + dt"
proof -
  have "monthStart 11 (if DaysInYear y = 366 then 1 else 0) = DaysInYear y - 31"
    using DaysInYear_bounds [of y] by (simp add: monthStart_def)
  then show ?thesis
    by (simp add: MakeDay_def Let_def DayFromYear_Suc)
qed








lemma midnight_eq: "TimeWithinDay x = 0 \<Longrightarrow> x = Day x * msPerDay"
  using div_mult_mod_eq [of x msPerDay] by (simp add: TimeWithinDay_def Day_def)

lemma TimeWithinDay_range: "0 \<le> TimeWithinDay t" "TimeWithinDay t < msPerDay"
  by (simp_all add: TimeWithinDay_def msPerDay_def)

lemma Day_MakeDate: "0 \<le> r \<Longrightarrow> r < msPerDay \<Longrightarrow> Day (MakeDate n r) = n"
  by (simp add: Day_def MakeDate_def msPerDay_def div_pos_pos_trivial)

lemma WeekDay_range: "0 \<le> WeekDay t" "WeekDay t < 7"
  by (simp_all add: WeekDay_def)

declare yearDown.simps [simp del]

section \<open>Strings and numbers of the host language\<close>

text \<open>
  Identifiers, labels and date strings are lists of characters.  \<open>toString\<close> is the
  decimal rendering of an integer (\<open>n.toString()\<close>, and \<open>${n}\<close> in a template),
  \<open>padStart\<close> is \<open>s.padStart(n, c)\<close> for a one-character pad, \<open>splitT0\<close> is
  \<open>s.split('T')[0]\<close>, and \<open>s.startsWith(p)\<close> is \<open>prefix p s\<close>.

  The text of a note is whatever the user types, and the program asks whether it is blank.
  It is kept as the host keeps it, a list of 16-bit code units, and \<open>trim\<close> is
  \<open>String.prototype.trim\<close> of ECMA-262: it strips from both ends the code units of
  \<open>WhiteSpace\<close> (tab, vertical tab, form feed, the byte order mark U+FEFF and the space
  separators of Unicode) and of \<open>LineTerminator\<close> (line feed, carriage return, U+2028,
  U+2029).  All of them lie in the basic plane, so none is half of a surrogate pair.
  \<open>utf16\<close> writes an ASCII text as code units.
\<close>

type_synonym ustring = "16 word list"

definition utf16 :: "string \<Rightarrow> ustring" where
  "utf16 s = map (\<lambda>c. of_nat (of_char c)) s"

fun digits :: "nat \<Rightarrow> string" where
  "digits n = (if n < 10 then [''0123456789'' ! n] else digits (n div 10) @ [''0123456789'' ! (n mod 10)])"

declare digits.simps [simp del]

definition toString :: "int \<Rightarrow> string" where
  "toString n = (if n < 0 then ''-'' @ digits (nat (- n)) else digits (nat n))"

definition padStart :: "nat \<Rightarrow> char \<Rightarrow> string \<Rightarrow> string" where
  "padStart n c s = replicate (n - length s) c @ s"

definition isWhiteSpace :: "16 word \<Rightarrow> bool" where
  "isWhiteSpace c =
     (c \<in> set [0x0009, 0x000A, 0x000B, 0x000C, 0x000D, 0x0020, 0x00A0, 0x1680,
                0x2000, 0x2001, 0x2002, 0x2003, 0x2004, 0x2005, 0x2006, 0x2007, 0x2008,
                0x2009, 0x200A, 0x2028, 0x2029, 0x202F, 0x205F, 0x3000, 0xFEFF])"

definition trim :: "ustring \<Rightarrow> ustring" where
  "trim s = rev (dropWhile isWhiteSpace (rev (dropWhile isWhiteSpace s)))"

definition splitT0 :: "string \<Rightarrow> string" where
  "splitT0 s = takeWhile (\<lambda>c. c \<noteq> CHR ''T'') s"

text \<open>\<open>a || b\<close> on strings that may be undefined: the empty string and undefined are falsy.\<close>

definition truthy :: "string option \<Rightarrow> bool" where
  "truthy a = (case a of None \<Rightarrow> False | Some s \<Rightarrow> s \<noteq> [])"

definition orElse :: "string option \<Rightarrow> string \<Rightarrow> string" where
  "orElse a b = (if truthy a then the a else b)"

text \<open>\<open>Math.ceil(a / b)\<close> on numbers: the quotient is taken in the rationals.\<close>

definition ceilDiv :: "int \<Rightarrow> int \<Rightarrow> int" where
  "ceilDiv a b = \<lceil>(of_int a :: rat) / of_int b\<rceil>"



lemma ceilDiv_eq: "ceilDiv a b = - ((- a) div b)"
  unfolding ceilDiv_def by (simp add: ceiling_divide_eq_div)

subsection \<open>The ISO string determines the time value\<close>










lemma digits_nonempty: "digits n \<noteq> []"
  by (cases "n < 10") (simp_all add: digits.simps [of n])



lemma padStart_nonempty: "padStart k c (toString x) \<noteq> []"
  using digits_nonempty by (simp add: padStart_def toString_def)






section \<open>The planner's data (constants.ts, App.tsx)\<close>

definition DAYS_OF_WEEK :: "string list" where
  "DAYS_OF_WEEK = [''Mon'', ''Tue'', ''Wed'', ''Thu'', ''Fri'', ''Sat'', ''Sun'']"

definition START_HOUR :: int where
  "START_HOUR = 6"

definition END_HOUR :: int where
  "END_HOUR = 23"

definition TASK_COLORS :: "string list" where
  "TASK_COLORS =
     [''bg-blue-100 border-blue-300 text-blue-800'',
      ''bg-green-100 border-green-300 text-green-800'',
      ''bg-purple-100 border-purple-300 text-purple-800'',
      ''bg-orange-100 border-orange-300 text-orange-800'',
      ''bg-rose-100 border-rose-300 text-rose-800'']"

text \<open>
  The records follow the declarations of \<open>Task\<close>, \<open>Goal\<close> and \<open>WeeklyArchive\<close> (the
  interfaces exported at the end of App.tsx), property by property.  They admit more than
  the declarations where the program can meet more at run time: values read back from the
  device storage are not checked against the declarations.

  A task is an object whose properties may be missing: the code builds tasks by spreading
  a \<open>Partial<Task>\<close>, so every property is optional here (\<open>None\<close> is \<open>undefined\<close>).  In a
  \<open>Partial<Task>\<close> a property is absent (\<open>None\<close>) or present with a value that may itself
  be \<open>undefined\<close> (\<open>Some None\<close>).
\<close>

record Task =
  task_id :: "string option"
  title :: "string option"
  description :: "string option"
  dayIndex :: "int option"
  startTime :: "string option"
  duration :: "int option"
  isCompleted :: "bool option"
  color :: "string option"

record PartialTask =
  p_id :: "string option option"
  p_title :: "string option option"
  p_description :: "string option option"
  p_dayIndex :: "int option option"
  p_startTime :: "string option option"
  p_duration :: "int option option"
  p_isCompleted :: "bool option option"
  p_color :: "string option option"

record Goal =
  goal_id :: string
  goal_text :: string
  goal_isCompleted :: bool
  goal_color :: "string option"

text \<open>
  The notes of a week are an object from day label to text, kept here as the list of its
  entries.  A persisted record may hold the legacy shape instead: one string.
\<close>

datatype Thoughts = LegacyString ustring | ThoughtsMap "(string \<times> ustring) list"

record WeeklyArchive =
  archive_id :: string
  weekStartDate :: string
  weekLabel :: string
  archive_tasks :: "Task list"
  archive_goals :: "Goal list"
  archive_dailyThoughts :: "Thoughts option"

record TimerState =
  goalId :: string
  timer_startTime :: int
  accumulated :: int
  isRunning :: bool

text \<open>
  The state of the \<open>App\<close> component (its \<open>useState\<close> cells), and with it the archive
  record of the device storage (\<open>HISTORY_KEY\<close>), which the synchronizer writes.
\<close>

record AppState =
  tasks :: "Task list"
  goals :: "Goal list"
  dailyThoughts :: "(string \<times> ustring) list"
  archives :: "WeeklyArchive list"
  newGoalText :: string
  currentWeekStartDate :: string
  isSidebarOpen :: bool
  isHistoryOpen :: bool
  isTaskModalOpen :: bool
  expandedDay :: "string option"
  currentWeekLabel :: string
  isLoaded :: bool
  activeTimer :: "TimerState option"
  timerDisplay :: int
  historyStore :: "WeeklyArchive list option"

text \<open>The current-view record as \<open>JSON.parse\<close> returns it: any property may be missing.\<close>

record SavedData =
  saved_tasks :: "Task list option"
  saved_goals :: "Goal list option"
  saved_dailyThoughts :: "Thoughts option"
  saved_currentWeekStartDate :: "string option"
  saved_weekLabel :: "string option"

section \<open>Week helpers (App.tsx)\<close>

text \<open>
  \<open>getMonday\<close>, in the zone \<open>z\<close>.  \<open>mondayDay z d\<close> is the day number of the Monday
  of the week of \<open>d\<close>: the local calendar day of \<open>d\<close> less \<open>(weekday + 6) mod 7\<close> days.
\<close>

definition getMonday :: "Zone \<Rightarrow> int \<Rightarrow> int" where
  "getMonday z d =
     (let date = d;
          day = getDayIn z date;
          diff = getDateIn z date - day + (if day = 0 then - 6 else 1);
          newDate = setDateIn z date diff
      in setHours0In z newDate)"

definition mondayDay :: "Zone \<Rightarrow> int \<Rightarrow> int" where
  "mondayDay z d = Day (LocalTimeIn z d) - (getDayIn z d + 6) mod 7"


definition formatDate :: "int \<Rightarrow> int \<Rightarrow> string" where
  "formatDate tza date =
     (let year = getFullYear tza date;
          month = padStart 2 CHR ''0'' (toString (getMonth tza date + 1));
          day = padStart 2 CHR ''0'' (toString (getDate tza date))
      in toString year @ ''-'' @ month @ ''-'' @ day)"

definition getWeekNumber :: "int \<Rightarrow> int \<Rightarrow> int" where
  "getWeekNumber tza d =
     (let onejan = DateYMD tza (getFullYear tza d) 0 1;
          millisecsInDay = 86400000
      in \<lceil>(((of_int (d - onejan) :: rat) / of_int millisecsInDay) + of_int (getDay tza onejan) + 1) / 7\<rceil>)"

definition generateWeekLabel :: "int \<Rightarrow> int \<Rightarrow> string" where
  "generateWeekLabel tza d = toString (getFullYear tza d) @ '' - Week '' @ toString (getWeekNumber tza d)"

text \<open>
  \<open>generateWeekLabel(new Date(str))\<close>: the string may not parse, and then every field of
  the invalid \<open>Date\<close> is \<open>NaN\<close>.
\<close>

definition generateWeekLabelOf :: "int \<Rightarrow> int option \<Rightarrow> string" where
  "generateWeekLabelOf tza d =
     (case d of None \<Rightarrow> ''NaN - Week NaN'' | Some t \<Rightarrow> generateWeekLabel tza t)"

definition getCurrentDayIndex :: "int \<Rightarrow> int \<Rightarrow> int" where
  "getCurrentDayIndex tza now = (getDay tza now + 6) mod 7"

text \<open>The state the component starts in (the initial values of its cells).\<close>

definition initialState :: "int \<Rightarrow> int \<Rightarrow> AppState" where
  "initialState tza now =
     \<lparr>tasks = [], goals = [], dailyThoughts = [], archives = [], newGoalText = [],
      currentWeekStartDate = formatDate tza (getMonday (fixedZone tza) now),
      isSidebarOpen = False, isHistoryOpen = False, isTaskModalOpen = False,
      expandedDay = None, currentWeekLabel = [], isLoaded = False,
      activeTimer = None, timerDisplay = 0, historyStore = None\<rparr>"

subsection \<open>Facts about the week helpers\<close>

lemma fixedZone_methods:
  "LocalTimeIn (fixedZone tza) t = LocalTime tza t"
  "UTCIn (fixedZone tza) t = UTC tza t"
  "getDayIn (fixedZone tza) t = getDay tza t"
  "getDateIn (fixedZone tza) t = getDate tza t"
  "setDateIn (fixedZone tza) t dt = setDate tza t dt"
  "setHours0In (fixedZone tza) t = setHours0 tza t"
  by (simp_all add: LocalTimeIn_def UTCIn_def fixedZone_def LocalTime_def UTC_def getDayIn_def
      getDay_def getDateIn_def getDate_def setDateIn_def setDate_def setHours0In_def setHours0_def)

lemma getMonday_fixed:
  "getMonday (fixedZone tza) d =
     setHours0 tza (setDate tza d
       (getDate tza d - getDay tza d + (if getDay tza d = 0 then - 6 else 1)))"
  by (simp add: getMonday_def Let_def fixedZone_methods)

lemma fixedZone_faithful: "faithful (fixedZone tza)" "onItsDay (fixedZone tza) x"
  by (simp_all add: faithful_def onItsDay_def LocalTimeIn_def UTCIn_def fixedZone_def)

lemma springForward_faithful: "a \<le> b \<Longrightarrow> faithful (springForward T a b)"
  by (auto simp: faithful_def LocalTimeIn_def UTCIn_def springForward_def)

lemma mondayDay_eq: "mondayDay z d = 7 * ((Day (LocalTimeIn z d) + 3) div 7) - 3"
  unfolding mondayDay_def getDayIn_def WeekDay_def by (rule monday_closed)

lemma mondayDay_monday: "(mondayDay z d + 4) mod 7 = 1"
  unfolding mondayDay_eq by (rule monday_weekday)

lemma mondayDay_bounds:
  "mondayDay z d \<le> Day (LocalTimeIn z d)" "Day (LocalTimeIn z d) \<le> mondayDay z d + 6"
  unfolding mondayDay_eq by presburger+

lemma getMonday_value:
  assumes "onItsDay z (MakeDate (mondayDay z D) (TimeWithinDay (LocalTimeIn z D)))"
  shows "getMonday z D = UTCIn z (MakeDate (mondayDay z D) 0)"
proof -
  define L where "L = LocalTimeIn z D"
  define k where "k = - ((WeekDay L + 6) mod 7)"
  have r: "0 \<le> WeekDay L" "WeekDay L < 7" by (rule WeekDay_range)+
  have "- WeekDay L + (if WeekDay L = 0 then - 6 else 1) = k"
    using r unfolding k_def by presburger
  then have diff: "DateFromTime L - WeekDay L + (if WeekDay L = 0 then - 6 else 1) = DateFromTime L + k"
    by simp
  have m: "mondayDay z D = Day L + k" by (simp add: mondayDay_def getDayIn_def L_def k_def)
  have s: "setDateIn z D (DateFromTime L + k) = UTCIn z (MakeDate (mondayDay z D) (TimeWithinDay L))"
    by (simp add: setDateIn_def Let_def L_def [symmetric] MakeDay_DateFromTime m)
  have d: "Day (LocalTimeIn z (UTCIn z (MakeDate (mondayDay z D) (TimeWithinDay L)))) = mondayDay z D"
    using assms TimeWithinDay_range [of L] by (simp add: onItsDay_def L_def [symmetric] Day_MakeDate)
  have "getMonday z D = setHours0In z (setDateIn z D (DateFromTime L + k))"
    unfolding getMonday_def Let_def getDayIn_def getDateIn_def L_def [symmetric] diff ..
  also have "\<dots> = UTCIn z (MakeDate (mondayDay z D) 0)"
    unfolding s setHours0In_def d ..
  finally show ?thesis .
qed

lemma getMonday_day:
  assumes "onItsDay z (MakeDate (mondayDay z D) (TimeWithinDay (LocalTimeIn z D)))"
    and "onItsDay z (MakeDate (mondayDay z D) 0)"
  shows "Day (LocalTimeIn z (getMonday z D)) = mondayDay z D"
    and "getDayIn z (getMonday z D) = 1"
proof -
  show d: "Day (LocalTimeIn z (getMonday z D)) = mondayDay z D"
    using assms(2) unfolding getMonday_value [OF assms(1)] onItsDay_def
    by (simp add: Day_MakeDate msPerDay_def)
  show "getDayIn z (getMonday z D) = 1"
    unfolding getDayIn_def WeekDay_def d by (rule mondayDay_monday)
qed

lemma getMonday_midnight:
  assumes "onItsDay z (MakeDate (mondayDay z D) (TimeWithinDay (LocalTimeIn z D)))"
    and "onItsDay z (MakeDate (mondayDay z D) 0)" and "faithful z"
  shows "TimeWithinDay (LocalTimeIn z (getMonday z D)) = 0
     \<longleftrightarrow> (\<exists>t. LocalTimeIn z t = MakeDate (mondayDay z D) 0)"
proof
  assume "TimeWithinDay (LocalTimeIn z (getMonday z D)) = 0"
  then have "LocalTimeIn z (getMonday z D) = Day (LocalTimeIn z (getMonday z D)) * msPerDay"
    by (rule midnight_eq)
  then have "LocalTimeIn z (getMonday z D) = MakeDate (mondayDay z D) 0"
    by (simp add: getMonday_day(1) [OF assms(1,2)] MakeDate_def)
  then show "\<exists>t. LocalTimeIn z t = MakeDate (mondayDay z D) 0" by blast
next
  assume "\<exists>t. LocalTimeIn z t = MakeDate (mondayDay z D) 0"
  then obtain t where t: "LocalTimeIn z t = MakeDate (mondayDay z D) 0" by blast
  have "LocalTimeIn z (UTCIn z (LocalTimeIn z t)) = LocalTimeIn z t"
    using assms(3) by (simp add: faithful_def)
  then have "LocalTimeIn z (getMonday z D) = MakeDate (mondayDay z D) 0"
    unfolding getMonday_value [OF assms(1)] t .
  then show "TimeWithinDay (LocalTimeIn z (getMonday z D)) = 0"
    by (simp add: TimeWithinDay_def MakeDate_def)
qed

lemma getMonday_idem:
  assumes "onItsDay z (MakeDate (mondayDay z D) (TimeWithinDay (LocalTimeIn z D)))"
    and "onItsDay z (MakeDate (mondayDay z D) 0)" and "faithful z"
  shows "getMonday z (getMonday z D) = getMonday z D"
proof -
  define R where "R = getMonday z D"
  define l where "l = LocalTimeIn z R"
  have d: "Day l = mondayDay z D" and w: "getDayIn z R = 1"
    using getMonday_day [OF assms(1,2)] by (simp_all add: R_def l_def)
  have m: "mondayDay z R = mondayDay z D"
    by (simp add: mondayDay_def [of z R] w d [unfolded l_def])
  have "l = Day l * msPerDay + TimeWithinDay l"
    by (simp add: Day_def TimeWithinDay_def)
  then have x: "MakeDate (mondayDay z R) (TimeWithinDay (LocalTimeIn z R)) = l"
    by (simp add: m d [symmetric] MakeDate_def l_def)
  have "LocalTimeIn z (UTCIn z l) = l" using assms(3) by (simp add: faithful_def l_def)
  then have "onItsDay z l" by (simp add: onItsDay_def)
  then have "getMonday z R = UTCIn z (MakeDate (mondayDay z R) 0)"
    using x by (intro getMonday_value) simp
  also have "\<dots> = UTCIn z (MakeDate (mondayDay z D) 0)" by (simp only: m)
  also have "\<dots> = R" by (simp only: R_def getMonday_value [OF assms(1)])
  finally show ?thesis by (simp only: R_def)
qed

text \<open>In a zone without clock changes.\<close>

lemma getMonday_eq:
  "getMonday (fixedZone tza) d = UTC tza (MakeDate (7 * ((Day (LocalTime tza d) + 3) div 7) - 3) 0)"
  using getMonday_value [of "fixedZone tza" d]
  by (simp add: fixedZone_faithful mondayDay_eq fixedZone_methods)

lemma Day_MakeDate0: "Day (MakeDate n 0) = n" "TimeWithinDay (MakeDate n 0) = 0"
  by (simp_all add: Day_def TimeWithinDay_def MakeDate_def msPerDay_def)

lemma LocalTime_UTC: "LocalTime tza (UTC tza t) = t"
  by (simp add: LocalTime_def UTC_def)

lemma getMonday_local:
  "LocalTime tza (getMonday (fixedZone tza) d) = MakeDate (7 * ((Day (LocalTime tza d) + 3) div 7) - 3) 0"
  by (simp add: getMonday_eq LocalTime_UTC)

lemma getMonday_getDay: "getDay tza (getMonday (fixedZone tza) d) = 1"
  unfolding getDay_def getMonday_local WeekDay_def Day_MakeDate0 by (rule monday_weekday)

lemma getMonday_same_week:
  assumes "getMonday (fixedZone tza) d \<le> d'" "d' < getMonday (fixedZone tza) d + 7 * msPerDay"
  shows "getMonday (fixedZone tza) d' = getMonday (fixedZone tza) d"
proof -
  define q where "q = (Day (LocalTime tza d) + 3) div 7"
  have m: "getMonday (fixedZone tza) d = (7 * q - 3) * msPerDay - tza"
    by (simp add: getMonday_eq q_def UTC_def MakeDate_def)
  have p: "0 < msPerDay" by (simp add: msPerDay_def)
  have "(7 * q - 3) * msPerDay \<le> d' + tza" using assms(1) m by simp
  then have lo: "7 * q - 3 \<le> Day (d' + tza)"
    unfolding Day_def by (rule le_div_int [OF p])
  have "d' + tza < (7 * q + 4) * msPerDay" using assms(2) m by (simp add: algebra_simps)
  then have hi: "Day (d' + tza) < 7 * q + 4"
    unfolding Day_def by (rule div_less_int [OF p])
  have "(Day (LocalTime tza d') + 3) div 7 = q"
    using week_div [OF lo hi] by (simp add: LocalTime_def)
  then show ?thesis by (simp add: getMonday_eq q_def)
qed

lemma getMonday_contains: "getMonday (fixedZone tza) d \<le> d" "d < getMonday (fixedZone tza) d + 7 * msPerDay"
proof -
  define n where "n = Day (LocalTime tza d)"
  have p: "0 < msPerDay" by (simp add: msPerDay_def)
  have a: "7 * ((n + 3) div 7) - 3 \<le> n" "n < 7 * ((n + 3) div 7) - 3 + 7" by presburger+
  have b: "n * msPerDay \<le> d + tza" "d + tza < (n + 1) * msPerDay"
    unfolding n_def LocalTime_def Day_def by (rule div_mult_le_int [OF p])+
  have m: "getMonday (fixedZone tza) d = (7 * ((n + 3) div 7) - 3) * msPerDay - tza"
    by (simp add: getMonday_eq n_def UTC_def MakeDate_def)
  have "(7 * ((n + 3) div 7) - 3) * msPerDay \<le> n * msPerDay"
    using a(1) p by (intro mult_right_mono) simp_all
  then show "getMonday (fixedZone tza) d \<le> d" using m b(1) by simp
  have "(n + 1) * msPerDay \<le> (7 * ((n + 3) div 7) - 3 + 7) * msPerDay"
    using a(2) p by (intro mult_right_mono) simp_all
  then show "d < getMonday (fixedZone tza) d + 7 * msPerDay" using m b(2) by (simp add: algebra_simps)
qed

section \<open>Session timer (App.tsx)\<close>

text \<open>
  Handlers are functions from state to state.  What a handler reads from outside comes in
  as an argument: each reading of the clock (\<open>Date.now()\<close>, \<open>new Date()\<close>), and the
  identifier that \<open>generateId()\<close> draws.
\<close>

definition toggleTimer :: "int \<Rightarrow> string \<Rightarrow> AppState \<Rightarrow> AppState" where
  "toggleTimer now gid s =
     (case activeTimer s of
        Some t \<Rightarrow>
          if goalId t = gid then
            (if isRunning t then
               let diffInSeconds = (now - timer_startTime t) div 1000
               in s\<lparr>activeTimer :=
                     Some (t\<lparr>isRunning := False, accumulated := accumulated t + diffInSeconds\<rparr>)\<rparr>
             else s\<lparr>activeTimer := Some (t\<lparr>isRunning := True, timer_startTime := now\<rparr>)\<rparr>)
          else
            s\<lparr>activeTimer :=
                Some \<lparr>goalId = gid, timer_startTime = now, accumulated = 0, isRunning = True\<rparr>,
              timerDisplay := 0\<rparr>
      | None \<Rightarrow>
          s\<lparr>activeTimer :=
              Some \<lparr>goalId = gid, timer_startTime = now, accumulated = 0, isRunning = True\<rparr>,
            timerDisplay := 0\<rparr>)"

definition createTaskFromGoal ::
  "string \<Rightarrow> string \<Rightarrow> int \<Rightarrow> string \<Rightarrow> string \<Rightarrow> int \<Rightarrow> bool \<Rightarrow> AppState \<Rightarrow> AppState" where
  "createTaskFromGoal newId txt dayIdx start col dur completed s =
     (let newTask =
        \<lparr>task_id = Some newId, title = Some txt, description = None, dayIndex = Some dayIdx,
         startTime = Some start, duration = Some dur, isCompleted = Some completed,
         color = Some col\<rparr>
      in s\<lparr>tasks := tasks s @ [newTask]\<rparr>)"

text \<open>
  \<open>stopTimer\<close> reads the clock three times: \<open>now1\<close> for the elapsed time, \<open>now2\<close> for the
  start of the task, \<open>now3\<close> in \<open>getCurrentDayIndex\<close>.
\<close>

definition stopTimer ::
  "int \<Rightarrow> int \<Rightarrow> int \<Rightarrow> int \<Rightarrow> string \<Rightarrow> string \<Rightarrow> AppState \<Rightarrow> AppState" where
  "stopTimer tza now1 now2 now3 newId gid s =
     (case activeTimer s of
        None \<Rightarrow> s
      | Some t \<Rightarrow>
          if goalId t \<noteq> gid then s
          else
            let totalSeconds =
                  accumulated t + (if isRunning t then (now1 - timer_startTime t) div 1000 else 0);
                s1 = s\<lparr>activeTimer := None, timerDisplay := 0\<rparr>
            in if totalSeconds > 0 then
                 let minutes = ceilDiv totalSeconds 60;
                     roundedDuration = max 15 (ceilDiv minutes 15 * 15);
                     goal = find (\<lambda>g. goal_id g = gid) (goals s);
                     start = now2 - totalSeconds * 1000;
                     h0 = getHours tza start;
                     m = getMinutes tza start;
                     h = (if h0 < START_HOUR then START_HOUR else h0);
                     timeString =
                       padStart 2 CHR ''0'' (toString h) @ '':'' @ (if m < 30 then ''00'' else ''30'');
                     todayIndex = getCurrentDayIndex tza now3
                 in createTaskFromGoal newId
                      (orElse (map_option goal_text goal) ''Focus Session'' @ '' (Timer)'')
                      todayIndex timeString
                      (orElse (case goal of None \<Rightarrow> None | Some g \<Rightarrow> goal_color g) (TASK_COLORS ! 2))
                      roundedDuration True s1
               else s1)"

section \<open>Editing tasks (App.tsx)\<close>

definition spread :: "'a option \<Rightarrow> 'a option option \<Rightarrow> 'a option" where
  "spread old p = (case p of None \<Rightarrow> old | Some v \<Rightarrow> v)"

text \<open>\<open>{ ...t, ...taskData }\<close>: the properties present in \<open>taskData\<close> replace those of \<open>t\<close>.\<close>

definition mergeTask :: "Task \<Rightarrow> PartialTask \<Rightarrow> Task" where
  "mergeTask t taskData =
     \<lparr>task_id = spread (task_id t) (p_id taskData),
      title = spread (title t) (p_title taskData),
      description = spread (description t) (p_description taskData),
      dayIndex = spread (dayIndex t) (p_dayIndex taskData),
      startTime = spread (startTime t) (p_startTime taskData),
      duration = spread (duration t) (p_duration taskData),
      isCompleted = spread (isCompleted t) (p_isCompleted taskData),
      color = spread (color t) (p_color taskData)\<rparr>"

definition emptyTask :: Task where
  "emptyTask =
     \<lparr>task_id = None, title = None, description = None, dayIndex = None, startTime = None,
      duration = None, isCompleted = None, color = None\<rparr>"

definition handleSaveTask :: "string \<Rightarrow> PartialTask \<Rightarrow> AppState \<Rightarrow> AppState" where
  "handleSaveTask newId taskData s =
     (if truthy (spread None (p_id taskData)) then
        s\<lparr>tasks := map (\<lambda>t. if task_id t = spread None (p_id taskData) then mergeTask t taskData else t)
                       (tasks s)\<rparr>
      else
        let newTask = (mergeTask emptyTask taskData)\<lparr>task_id := Some newId, isCompleted := Some False\<rparr>
        in s\<lparr>tasks := tasks s @ [newTask]\<rparr>)"

section \<open>Archive synchronizer and week navigation (App.tsx)\<close>

text \<open>\<open>xs.findIndex(p)\<close>: the first index whose element satisfies \<open>p\<close>, or \<open>-1\<close>.\<close>

fun findIndexFrom :: "('a \<Rightarrow> bool) \<Rightarrow> 'a list \<Rightarrow> int \<Rightarrow> int" where
  "findIndexFrom p [] i = - 1"
| "findIndexFrom p (x # xs) i = (if p x then i else findIndexFrom p xs (i + 1))"

definition findIndex :: "('a \<Rightarrow> bool) \<Rightarrow> 'a list \<Rightarrow> int" where
  "findIndex p xs = findIndexFrom p xs 0"

text \<open>\<open>xs.filter((x, idx) => p(x, idx))\<close>.\<close>

fun filterIdxFrom :: "('a \<Rightarrow> int \<Rightarrow> bool) \<Rightarrow> 'a list \<Rightarrow> int \<Rightarrow> 'a list" where
  "filterIdxFrom p [] i = []"
| "filterIdxFrom p (x # xs) i =
     (if p x i then x # filterIdxFrom p xs (i + 1) else filterIdxFrom p xs (i + 1))"

definition filterIdx :: "('a \<Rightarrow> int \<Rightarrow> bool) \<Rightarrow> 'a list \<Rightarrow> 'a list" where
  "filterIdx p xs = filterIdxFrom p xs 0"

definition hasContent :: "AppState \<Rightarrow> bool" where
  "hasContent s =
     (length (tasks s) > 0 \<or> length (goals s) > 0
      \<or> list_ex (\<lambda>t. length (trim t) > 0) (map snd (dailyThoughts s)))"

text \<open>
  The state updater that the auto-sync effect hands to \<open>setArchives\<close>, with the write to
  the device storage it performs.
\<close>

definition syncArchives :: "string \<Rightarrow> AppState \<Rightarrow> AppState" where
  "syncArchives newId s =
     (let prevArchives = archives s;
          existingIndex = findIndex (\<lambda>a. weekStartDate a = currentWeekStartDate s) prevArchives
      in if \<not> hasContent s then
           (if existingIndex \<ge> 0 then
              let newArchives = filterIdx (\<lambda>_ idx. idx \<noteq> existingIndex) prevArchives
              in s\<lparr>archives := newArchives, historyStore := Some newArchives\<rparr>
            else s)
         else
           let currentArchiveData =
                 \<lparr>archive_id =
                    (if existingIndex \<ge> 0 then archive_id (prevArchives ! nat existingIndex) else newId),
                  weekStartDate = currentWeekStartDate s,
                  weekLabel = currentWeekLabel s,
                  archive_tasks = tasks s,
                  archive_goals = goals s,
                  archive_dailyThoughts = Some (ThoughtsMap (dailyThoughts s))\<rparr>;
               newArchives =
                 (if existingIndex \<ge> 0 then prevArchives[nat existingIndex := currentArchiveData]
                  else currentArchiveData # prevArchives)
           in s\<lparr>archives := newArchives, historyStore := Some newArchives\<rparr>)"

definition autoSyncEffect :: "string \<Rightarrow> AppState \<Rightarrow> AppState" where
  "autoSyncEffect newId s =
     (if \<not> isLoaded s \<or> currentWeekStartDate s = [] then s else syncArchives newId s)"

text \<open>
  \<open>handleSelectWeek\<close>.  \<open>Date_parse\<close> is the host's \<open>new Date(string)\<close>: the time value, or
  \<open>None\<close> for an invalid date.
\<close>

definition handleSelectWeek ::
  "int \<Rightarrow> (string \<Rightarrow> int option) \<Rightarrow> string \<Rightarrow> AppState \<Rightarrow> AppState" where
  "handleSelectWeek tza Date_parse startDate s =
     (let targetDateStr = splitT0 startDate;
          existingArchive = find (\<lambda>a. prefix targetDateStr (weekStartDate a)) (archives s);
          s1 =
            (case existingArchive of
               Some a \<Rightarrow>
                 s\<lparr>tasks := archive_tasks a,
                   goals := archive_goals a,
                   dailyThoughts :=
                     (case archive_dailyThoughts a of
                        None \<Rightarrow> []
                      | Some (LegacyString str) \<Rightarrow> if str = [] then [] else [(''Mon'', str)]
                      | Some (ThoughtsMap m) \<Rightarrow> m),
                   currentWeekLabel := weekLabel a\<rparr>
             | None \<Rightarrow>
                 s\<lparr>tasks := [], goals := [], dailyThoughts := [],
                   currentWeekLabel := generateWeekLabelOf tza (Date_parse startDate)\<rparr>)
      in s1\<lparr>currentWeekStartDate := targetDateStr, isHistoryOpen := False\<rparr>)"

text \<open>
  The data-loading effect, from the parsed current-view record (\<open>None\<close>: nothing stored)
  and the parsed archive record.  It reads the clock at \<open>now\<close> for today's index and at
  \<open>now'\<close> for the current Monday.  The request for notification permission is left out.
\<close>

definition loadData ::
  "int \<Rightarrow> (string \<Rightarrow> int option) \<Rightarrow> int \<Rightarrow> int \<Rightarrow> SavedData option
     \<Rightarrow> WeeklyArchive list option \<Rightarrow> AppState \<Rightarrow> AppState" where
  "loadData tza Date_parse now now' savedData savedHistory s =
     (let todayIndex = (getDay tza now + 6) mod 7;
          s1 = s\<lparr>expandedDay := Some (DAYS_OF_WEEK ! nat todayIndex)\<rparr>;
          monday = getMonday (fixedZone tza) now';
          s2 =
            (case savedData of
               Some parsed \<Rightarrow>
                 let s3 =
                       s1\<lparr>tasks := (case saved_tasks parsed of None \<Rightarrow> [] | Some ts \<Rightarrow> ts),
                          goals := (case saved_goals parsed of None \<Rightarrow> [] | Some gs \<Rightarrow> gs),
                          dailyThoughts :=
                            (case saved_dailyThoughts parsed of
                               Some (LegacyString str) \<Rightarrow> [(DAYS_OF_WEEK ! nat todayIndex, str)]
                             | Some (ThoughtsMap m) \<Rightarrow> m
                             | None \<Rightarrow> [])\<rparr>
                 in if truthy (saved_currentWeekStartDate parsed) then
                      s3\<lparr>currentWeekStartDate := the (saved_currentWeekStartDate parsed),
                         currentWeekLabel :=
                           generateWeekLabelOf tza (Date_parse (the (saved_currentWeekStartDate parsed)))\<rparr>
                    else
                      s3\<lparr>currentWeekStartDate := formatDate tza monday,
                         currentWeekLabel := generateWeekLabel tza monday\<rparr>
             | None \<Rightarrow>
                 s1\<lparr>currentWeekStartDate := formatDate tza monday,
                    currentWeekLabel := generateWeekLabel tza monday\<rparr>)
      in s2\<lparr>archives := (case savedHistory of Some h \<Rightarrow> h | None \<Rightarrow> []), isLoaded := True\<rparr>)"

section \<open>History browser (HistoryModal.tsx)\<close>

text \<open>
  The grid of the history browser: for every year shown, twelve month buckets of week
  blocks.  The sources hold two revisions of the component; the one modelled is the later,
  which shows the years 2025 to 2030 and every year an archived week belongs to, in
  ascending order.  A result \<open>None\<close> stands for a call that does not return a value: a
  \<open>push\<close> on a missing bucket throws, and the scan for a year that is \<open>NaN\<close> (the year of
  an archive whose date does not parse) never leaves its first loop.
\<close>

record MajorityMonthInfo =
  year :: int
  monthIndex :: int

definition getMajorityMonthInfo :: "int \<Rightarrow> int \<Rightarrow> MajorityMonthInfo" where
  "getMajorityMonthInfo tza date =
     (let thursday = setDate tza date (getDate tza date + 3)
      in \<lparr>year = getFullYear tza thursday, monthIndex = getMonth tza thursday\<rparr>)"

record WeekBlock =
  startDate :: string
  dayLabel :: int
  archive :: "WeeklyArchive option"



lemma getMajorityMonthInfo_eq:
  "getMajorityMonthInfo tza d =
     \<lparr>year = getFullYear tza (d + 3 * msPerDay), monthIndex = getMonth tza (d + 3 * msPerDay)\<rparr>"
  by (simp add: getMajorityMonthInfo_def Let_def setDate_getDate)








































section \<open>Facts about the handlers\<close>

lemma todayIndex_range: "0 \<le> getCurrentDayIndex tza now" "getCurrentDayIndex tza now < 7"
  by (simp_all add: getCurrentDayIndex_def)

lemma mergeTask_same_id: "task_id t = Some i \<Longrightarrow> p_id taskData = Some (Some i) \<Longrightarrow>
  task_id (mergeTask t taskData) = Some i"
  by (simp add: mergeTask_def spread_def)

lemma findIndexFrom_none: "\<forall>x\<in>set xs. \<not> p x \<Longrightarrow> findIndexFrom p xs i = - 1"
  by (induction xs arbitrary: i) simp_all

lemma findIndexFrom_some: "\<exists>x\<in>set xs. p x \<Longrightarrow> i \<le> findIndexFrom p xs i"
proof (induction xs arbitrary: i)
  case Nil
  then show ?case by simp
next
  case (Cons x xs)
  show ?case
  proof (cases "p x")
    case True
    then show ?thesis by simp
  next
    case False
    then have "\<exists>x\<in>set xs. p x" using Cons.prems by simp
    from Cons.IH [OF this, of "i + 1"] False show ?thesis by simp
  qed
qed

lemma findIndex_ge0_iff: "0 \<le> findIndex p xs \<longleftrightarrow> (\<exists>x\<in>set xs. p x)"
proof (cases "\<exists>x\<in>set xs. p x")
  case True
  then show ?thesis using findIndexFrom_some [of xs p 0] by (simp add: findIndex_def)
next
  case False
  then have "findIndexFrom p xs 0 = - 1" by (intro findIndexFrom_none) simp
  then show ?thesis using False by (simp add: findIndex_def)
qed

lemma filterIdxFrom_all: "j < i \<Longrightarrow> filterIdxFrom (\<lambda>_ idx. idx \<noteq> j) xs i = xs"
  by (induction xs arbitrary: i) simp_all

lemma filter_key_absent: "\<forall>x\<in>set xs. f x \<noteq> k \<Longrightarrow> filter (\<lambda>a. f a \<noteq> k) xs = xs"
  by (induction xs) simp_all

lemma filterIdxFrom_remove:
  "distinct (map f xs) \<Longrightarrow> \<exists>x\<in>set xs. f x = k \<Longrightarrow>
   filterIdxFrom (\<lambda>_ idx. idx \<noteq> findIndexFrom (\<lambda>a. f a = k) xs i) xs i = filter (\<lambda>a. f a \<noteq> k) xs"
proof (induction xs arbitrary: i)
  case Nil
  then show ?case by simp
next
  case (Cons x xs)
  show ?case
  proof (cases "f x = k")
    case True
    then have "\<forall>y\<in>set xs. f y \<noteq> k" using Cons.prems(1) by (auto simp: image_iff)
    then show ?thesis using True by (simp add: filterIdxFrom_all filter_key_absent)
  next
    case False
    then have e: "\<exists>x\<in>set xs. f x = k" using Cons.prems(2) by simp
    have d: "distinct (map f xs)" using Cons.prems(1) by simp
    have "i + 1 \<le> findIndexFrom (\<lambda>a. f a = k) xs (i + 1)" using e by (intro findIndexFrom_some) 
    then show ?thesis using False Cons.IH [OF d e, of "i + 1"] by simp
  qed
qed

lemma map_key_absent: "\<forall>x\<in>set xs. f x \<noteq> k \<Longrightarrow> map (\<lambda>b. if f b = k then v else b) xs = xs"
  by (induction xs) simp_all

lemma map_key_replace: "f v = k \<Longrightarrow> map f (map (\<lambda>b. if f b = k then v else b) xs) = map f xs"
  by (induction xs) simp_all

lemma findIndexFrom_update:
  "distinct (map f xs) \<Longrightarrow> \<exists>x\<in>set xs. f x = k \<Longrightarrow>
   xs[nat (findIndexFrom (\<lambda>a. f a = k) xs i - i) := v] = map (\<lambda>b. if f b = k then v else b) xs"
proof (induction xs arbitrary: i)
  case Nil
  then show ?case by simp
next
  case (Cons x xs)
  show ?case
  proof (cases "f x = k")
    case True
    then have "\<forall>y\<in>set xs. f y \<noteq> k" using Cons.prems(1) by (auto simp: image_iff)
    then show ?thesis using True by (simp add: map_key_absent)
  next
    case False
    then have e: "\<exists>x\<in>set xs. f x = k" using Cons.prems(2) by simp
    have d: "distinct (map f xs)" using Cons.prems(1) by simp
    have "i + 1 \<le> findIndexFrom (\<lambda>a. f a = k) xs (i + 1)" using e by (intro findIndexFrom_some)
    then have "nat (findIndexFrom (\<lambda>a. f a = k) xs (i + 1) - i)
        = Suc (nat (findIndexFrom (\<lambda>a. f a = k) xs (i + 1) - (i + 1)))" by simp
    then show ?thesis using False Cons.IH [OF d e, of "i + 1"] by simp
  qed
qed

lemma findIndexFrom_nth:
  "distinct (map f xs) \<Longrightarrow> a \<in> set xs \<Longrightarrow> f a = k \<Longrightarrow>
   xs ! nat (findIndexFrom (\<lambda>a. f a = k) xs i - i) = a"
proof (induction xs arbitrary: i)
  case Nil
  then show ?case by simp
next
  case (Cons x xs)
  show ?case
  proof (cases "f x = k")
    case True
    then have "x = a" using Cons.prems by (auto simp: image_iff)
    then show ?thesis using True by simp
  next
    case False
    then have e: "a \<in> set xs" using Cons.prems by auto
    have d: "distinct (map f xs)" using Cons.prems(1) by simp
    have "i + 1 \<le> findIndexFrom (\<lambda>a. f a = k) xs (i + 1)"
      using e Cons.prems(3) by (intro findIndexFrom_some) blast
    then have "nat (findIndexFrom (\<lambda>a. f a = k) xs (i + 1) - i)
        = Suc (nat (findIndexFrom (\<lambda>a. f a = k) xs (i + 1) - (i + 1)))" by simp
    then show ?thesis using False Cons.IH [OF d e Cons.prems(3), of "i + 1"] by simp
  qed
qed

definition snapshot :: "string \<Rightarrow> AppState \<Rightarrow> WeeklyArchive" where
  "snapshot ident s =
     \<lparr>archive_id = ident, weekStartDate = currentWeekStartDate s, weekLabel = currentWeekLabel s,
      archive_tasks = tasks s, archive_goals = goals s,
      archive_dailyThoughts = Some (ThoughtsMap (dailyThoughts s))\<rparr>"

lemma syncArchives_empty:
  assumes "distinct (map weekStartDate (archives s))" "\<not> hasContent s"
  shows "archives (syncArchives newId s)
     = filter (\<lambda>a. weekStartDate a \<noteq> currentWeekStartDate s) (archives s)"
proof (cases "\<exists>a\<in>set (archives s). weekStartDate a = currentWeekStartDate s")
  case True
  then have "0 \<le> findIndex (\<lambda>a. weekStartDate a = currentWeekStartDate s) (archives s)"
    by (simp add: findIndex_ge0_iff)
  then show ?thesis
    using assms filterIdxFrom_remove [OF assms(1) True, of 0]
    by (simp add: syncArchives_def Let_def filterIdx_def findIndex_def)
next
  case False
  then have "\<not> 0 \<le> findIndex (\<lambda>a. weekStartDate a = currentWeekStartDate s) (archives s)"
    by (simp add: findIndex_ge0_iff)
  then show ?thesis
    using assms False by (simp add: syncArchives_def Let_def filter_key_absent)
qed

lemma syncArchives_update:
  assumes "distinct (map weekStartDate (archives s))" "hasContent s"
    and "a \<in> set (archives s)" "weekStartDate a = currentWeekStartDate s"
  shows "archives (syncArchives newId s)
     = map (\<lambda>b. if weekStartDate b = currentWeekStartDate s then snapshot (archive_id a) s else b)
         (archives s)"
proof -
  have e: "\<exists>a\<in>set (archives s). weekStartDate a = currentWeekStartDate s" using assms(3,4) by blast
  then have i: "0 \<le> findIndex (\<lambda>a. weekStartDate a = currentWeekStartDate s) (archives s)"
    by (simp add: findIndex_ge0_iff)
  have n: "archives s ! nat (findIndex (\<lambda>a. weekStartDate a = currentWeekStartDate s) (archives s)) = a"
    using findIndexFrom_nth [OF assms(1,3,4), of 0] by (simp add: findIndex_def)
  show ?thesis
    using assms(2) i n findIndexFrom_update [OF assms(1) e, of 0 "snapshot (archive_id a) s"]
    by (simp add: syncArchives_def Let_def findIndex_def snapshot_def)
qed

lemma syncArchives_create:
  assumes "hasContent s" "\<forall>a\<in>set (archives s). weekStartDate a \<noteq> currentWeekStartDate s"
  shows "archives (syncArchives newId s) = snapshot newId s # archives s"
proof -
  have "\<not> 0 \<le> findIndex (\<lambda>a. weekStartDate a = currentWeekStartDate s) (archives s)"
    using assms(2) by (simp add: findIndex_ge0_iff)
  then show ?thesis using assms(1) by (simp add: syncArchives_def Let_def snapshot_def)
qed

lemma syncArchives_distinct:
  assumes "distinct (map weekStartDate (archives s))"
  shows "distinct (map weekStartDate (archives (syncArchives newId s)))"
proof (cases "hasContent s")
  case False
  then show ?thesis using assms by (simp add: syncArchives_empty distinct_map_filter)
next
  case True
  show ?thesis
  proof (cases "\<exists>a\<in>set (archives s). weekStartDate a = currentWeekStartDate s")
    case ex: True
    then obtain a where a: "a \<in> set (archives s)" "weekStartDate a = currentWeekStartDate s" by blast
    have "map weekStartDate (map (\<lambda>b. if weekStartDate b = currentWeekStartDate s
              then snapshot (archive_id a) s else b) (archives s)) = map weekStartDate (archives s)"
      by (rule map_key_replace) (simp add: snapshot_def)
    then show ?thesis using assms by (simp only: syncArchives_update [OF assms True a])
  next
    case False
    then have n: "\<forall>a\<in>set (archives s). weekStartDate a \<noteq> currentWeekStartDate s" by blast
    then show ?thesis
      using assms by (auto simp: syncArchives_create [OF True n] snapshot_def)
  qed
qed

lemma handlers_keep_archives:
  "archives (toggleTimer now gid s) = archives s"
  "archives (stopTimer tza now1 now2 now3 newId gid s) = archives s"
  "archives (handleSaveTask newId taskData s) = archives s"
  "archives (handleSelectWeek tza Date_parse target s) = archives s"
  by (simp_all add: toggleTimer_def stopTimer_def createTaskFromGoal_def handleSaveTask_def
      handleSelectWeek_def Let_def split: option.splits)

lemma syncArchives_frame:
  "syncArchives newId s = s \<or>
   syncArchives newId s =
     s\<lparr>archives := archives (syncArchives newId s),
       historyStore := Some (archives (syncArchives newId s))\<rparr>"
  by (simp add: syncArchives_def Let_def)

text \<open>The synchronizer on any collection: it acts on the first entry of the active week.\<close>

lemma findIndexFrom_first:
  "\<forall>b\<in>set xs. \<not> p b \<Longrightarrow> p a \<Longrightarrow> findIndexFrom p (xs @ a # ys) i = i + int (length xs)"
  by (induction xs arbitrary: i) simp_all

lemma filterIdxFrom_first:
  "filterIdxFrom (\<lambda>_ idx. idx \<noteq> i + int (length xs)) (xs @ a # ys) i = xs @ ys"
proof (induction xs arbitrary: i)
  case Nil
  then show ?case by (simp add: filterIdxFrom_all)
next
  case (Cons x xs)
  have e: "i + int (length (x # xs)) = (i + 1) + int (length xs)" by simp
  have "i \<noteq> i + 1 + int (length xs)" by simp
  then show ?case unfolding e using Cons.IH [of "i + 1"] by (simp del: of_nat_Suc add.assoc)
qed

lemma syncArchives_first:
  assumes "archives s = xs @ a # ys" "weekStartDate a = currentWeekStartDate s"
    "\<forall>b\<in>set xs. weekStartDate b \<noteq> currentWeekStartDate s"
  shows "archives (syncArchives newId s)
     = (if hasContent s then xs @ snapshot (archive_id a) s # ys else xs @ ys)"
proof -
  have i: "findIndex (\<lambda>a. weekStartDate a = currentWeekStartDate s) (xs @ a # ys) = int (length xs)"
    using findIndexFrom_first [of xs "\<lambda>a. weekStartDate a = currentWeekStartDate s" a ys 0] assms(2,3)
    by (simp add: findIndex_def)
  have f: "filterIdx (\<lambda>_ idx. idx \<noteq> int (length xs)) (xs @ a # ys) = xs @ ys"
    using filterIdxFrom_first [of 0 xs a ys] by (simp add: filterIdx_def)
  show ?thesis
    using f by (simp add: syncArchives_def Let_def assms(1) i snapshot_def)
qed

lemma syncArchives_absent:
  assumes "\<forall>b\<in>set (archives s). weekStartDate b \<noteq> currentWeekStartDate s"
  shows "syncArchives newId s =
     (if hasContent s
      then s\<lparr>archives := snapshot newId s # archives s,
             historyStore := Some (snapshot newId s # archives s)\<rparr>
      else s)"
proof -
  have "\<not> 0 \<le> findIndex (\<lambda>a. weekStartDate a = currentWeekStartDate s) (archives s)"
    using assms by (simp add: findIndex_ge0_iff)
  then show ?thesis by (simp add: syncArchives_def Let_def snapshot_def)
qed

text \<open>A text is blank for \<open>trim\<close> exactly when all its code units are white space.\<close>

lemma trim_nonempty: "trim t \<noteq> [] \<longleftrightarrow> (\<exists>c\<in>set t. \<not> isWhiteSpace c)"
proof
  assume "trim t \<noteq> []"
  then have "dropWhile isWhiteSpace (rev (dropWhile isWhiteSpace t)) \<noteq> []"
    by (simp add: trim_def)
  then obtain c where c: "c \<in> set (dropWhile isWhiteSpace t)" "\<not> isWhiteSpace c"
    by (auto simp: dropWhile_eq_Nil_conv)
  from c(1) have "c \<in> set t" by (rule set_dropWhileD)
  with c(2) show "\<exists>c\<in>set t. \<not> isWhiteSpace c" by blast
next
  assume "\<exists>c\<in>set t. \<not> isWhiteSpace c"
  then have n: "dropWhile isWhiteSpace t \<noteq> []" by (simp add: dropWhile_eq_Nil_conv)
  then have "\<not> isWhiteSpace (hd (dropWhile isWhiteSpace t))" by (rule hd_dropWhile)
  moreover have "hd (dropWhile isWhiteSpace t) \<in> set (rev (dropWhile isWhiteSpace t))"
    using n by simp
  ultimately have "dropWhile isWhiteSpace (rev (dropWhile isWhiteSpace t)) \<noteq> []"
    unfolding dropWhile_eq_Nil_conv by blast
  then show "trim t \<noteq> []" by (simp add: trim_def)
qed

lemma ceilDiv_bounds:
  assumes "0 < b"
  shows "a \<le> ceilDiv a b * b" "(ceilDiv a b - 1) * b < a"
proof -
  have "((- a) div b) * b \<le> - a" "- a < ((- a) div b + 1) * b"
    by (rule div_mult_le_int [OF assms])+
  then show "a \<le> ceilDiv a b * b" "(ceilDiv a b - 1) * b < a"
    by (simp_all add: ceilDiv_eq algebra_simps)
qed


text \<open>Two archived weeks, one in the legacy shape, used as concrete inputs below.\<close>

definition legacyArchive :: "ustring \<Rightarrow> WeeklyArchive" where
  "legacyArchive str =
     \<lparr>archive_id = ''a1'', weekStartDate = ''2025-01-06'', weekLabel = ''2025 - Week 2'',
      archive_tasks = [], archive_goals = [], archive_dailyThoughts = Some (LegacyString str)\<rparr>"

definition mapArchive :: WeeklyArchive where
  "mapArchive =
     \<lparr>archive_id = ''a2'', weekStartDate = ''2025-01-13'', weekLabel = ''2025 - Week 3'',
      archive_tasks = [emptyTask\<lparr>title := Some ''write''\<rparr>], archive_goals = [],
      archive_dailyThoughts = Some (ThoughtsMap [(''Tue'', utf16 ''ok'')])\<rparr>"

lemma getWeekNumber_int:
  "getWeekNumber tza D =
     ceilDiv (D - DateYMD tza (getFullYear tza D) 0 1
              + (getDay tza (DateYMD tza (getFullYear tza D) 0 1) + 1) * msPerDay) (7 * msPerDay)"
proof -
  define j where "j = DateYMD tza (getFullYear tza D) 0 1"
  define x :: rat where "x = of_int (D - j)"
  define w :: rat where "w = of_int (getDay tza j)"
  have "(x + (w + 1) * 86400000) / 86400000 = x / 86400000 + w + 1"
    by (simp add: add_divide_distrib)
  then have "(x / 86400000 + w + 1) / 7 = (x + (w + 1) * 86400000) / (7 * 86400000)"
    by simp
  also have "x + (w + 1) * 86400000 = of_int (D - j + (getDay tza j + 1) * 86400000)"
    by (simp add: x_def w_def)
  also have "(7 * 86400000 :: rat) = of_int (7 * 86400000)" by simp
  finally have "\<lceil>(x / 86400000 + w + 1) / 7\<rceil>
      = \<lceil>(of_int (D - j + (getDay tza j + 1) * 86400000) :: rat) / of_int (7 * 86400000)\<rceil>"
    by (rule arg_cong)
  then show ?thesis
    unfolding getWeekNumber_def Let_def ceilDiv_def j_def [symmetric] msPerDay_def x_def w_def
    by simp
qed

lemma MakeDay_january: "MakeDay y 0 1 = DayFromYear y"
  by (simp add: MakeDay_def monthStart_def Let_def)

lemma onejan_any:
  "LocalTime tza (DateYMD tza y 0 1)
     = DayFromYear (if 0 \<le> y \<and> y \<le> 99 then 1900 + y else y) * msPerDay"
  by (simp add: DateYMD_def LocalTime_UTC MakeDate_def MakeDay_january)

lemma onejan_local:
  "getFullYear tza D < 0 \<or> 99 < getFullYear tza D \<Longrightarrow>
   LocalTime tza (DateYMD tza (getFullYear tza D) 0 1) = DayFromYear (getFullYear tza D) * msPerDay"
  by (auto simp: onejan_any)

lemma getWeekNumber_range:
  assumes "getFullYear tza D < 0 \<or> 99 < getFullYear tza D"
  shows "1 \<le> getWeekNumber tza D" "getWeekNumber tza D \<le> 54"
proof -
  define y where "y = getFullYear tza D"
  define j where "j = DateYMD tza y 0 1"
  define a where "a = D - j + (getDay tza j + 1) * msPerDay"
  have p: "0 < msPerDay" "0 < 7 * msPerDay" by (simp_all add: msPerDay_def)
  have jl: "j + tza = DayFromYear y * msPerDay"
    using onejan_local [OF assms] by (simp add: j_def y_def LocalTime_def)
  have yb: "DayFromYear y \<le> Day (D + tza)" "Day (D + tza) < DayFromYear (y + 1)"
    using YearFromTime_bounds [of "D + tza"] by (simp_all add: y_def getFullYear_def LocalTime_def)
  have f1: "Day (D + tza) * msPerDay \<le> D + tza"
    and f2': "D + tza < (Day (D + tza) + 1) * msPerDay"
    unfolding Day_def by (rule div_mult_le_int [OF p(1)])+
  have f2: "D + tza < Day (D + tza) * msPerDay + msPerDay"
    using f2' by (simp add: algebra_simps)
  have f3: "DayFromYear y * msPerDay \<le> Day (D + tza) * msPerDay"
    using yb(1) p(1) by (intro mult_right_mono) simp_all
  have "(Day (D + tza) + 1) * msPerDay \<le> (DayFromYear y + 366) * msPerDay"
    using yb(2) DayFromYear_Suc [of y] DaysInYear_bounds(2) [of y] p(1)
    by (intro mult_right_mono) simp_all
  then have f4: "Day (D + tza) * msPerDay + msPerDay \<le> DayFromYear y * msPerDay + 366 * msPerDay"
    by (simp only: distrib_right mult_1)
  have d: "0 \<le> D - j" "D - j < 366 * msPerDay"
    using f1 f2 f3 f4 jl by linarith+
  have w: "0 \<le> getDay tza j" "getDay tza j < 7" by (rule getDay_range)+
  have "msPerDay \<le> (getDay tza j + 1) * msPerDay"
    using w(1) p(1) by (simp add: algebra_simps)
  then have a0: "0 < a" using d(1) p(1) unfolding a_def by linarith
  have "(getDay tza j + 1) * msPerDay \<le> 7 * msPerDay"
    using w(2) p(1) by (intro mult_right_mono) simp_all
  then have a1: "a < 373 * msPerDay" using d(2) unfolding a_def by linarith
  have n: "getWeekNumber tza D = ceilDiv a (7 * msPerDay)"
    by (simp add: getWeekNumber_int a_def j_def y_def)
  have "a \<le> ceilDiv a (7 * msPerDay) * (7 * msPerDay)"
    "(ceilDiv a (7 * msPerDay) - 1) * (7 * msPerDay) < a"
    by (rule ceilDiv_bounds [OF p(2)])+
  then have b: "a \<le> getWeekNumber tza D * 604800000" "(getWeekNumber tza D - 1) * 604800000 < a"
    by (simp_all add: n msPerDay_def)
  have a1': "a < 32227200000" using a1 by (simp add: msPerDay_def)
  show "1 \<le> getWeekNumber tza D"
  proof (rule ccontr)
    assume "\<not> 1 \<le> getWeekNumber tza D"
    then have "getWeekNumber tza D \<le> 0" by simp
    then have "getWeekNumber tza D * 604800000 \<le> 0 * 604800000"
      by (intro mult_right_mono) simp_all
    then have "a \<le> 0" using b(1) by simp
    then show False using a0 by simp
  qed
  show "getWeekNumber tza D \<le> 54"
  proof (rule ccontr)
    assume "\<not> getWeekNumber tza D \<le> 54"
    then have "54 \<le> getWeekNumber tza D - 1" by simp
    then have "54 * 604800000 \<le> (getWeekNumber tza D - 1) * 604800000"
      by (intro mult_right_mono) simp_all
    then have "32659200000 \<le> (getWeekNumber tza D - 1) * 604800000" by simp
    then have "32659200000 < a" using b(2) by (rule le_less_trans)
    then have "(32659200000::int) < 32227200000" using a1' by (rule less_trans)
    then show False by simp
  qed
qed

text \<open>
  Modelled from the spec's words, for comparison with the code: the ISO week-numbering year
  of a date is the calendar year of the Thursday of its Monday-anchored week.
\<close>

definition spec_isoWeekYear :: "int \<Rightarrow> int \<Rightarrow> int" where
  "spec_isoWeekYear tza d = getFullYear tza (getMonday (fixedZone tza) d + 3 * msPerDay)"

text \<open>The Monday 2025-12-29 (UTC) and the strings of its label, evaluated.\<close>

lemma eval_a: "DateYMD 0 2025 11 29 = 1766966400000"
  by (simp add: DateYMD_def UTC_def MakeDate_def MakeDay_def monthStart_def DayFromYear_def
      DaysInYear_def msPerDay_def)

lemma eval_b: "getFullYear 0 1766966400000 = 2025"
  by (simp add: getFullYear_def LocalTime_def YearFromTime_def Day_def msPerDay_def
      yearDown.simps DayFromYear_def)

lemma eval_c: "DateYMD 0 2025 0 1 = 1735689600000"
  by (simp add: DateYMD_def UTC_def MakeDate_def MakeDay_def monthStart_def DayFromYear_def
      DaysInYear_def msPerDay_def)

lemma eval_d: "getDay 0 1735689600000 = 3"
  by (simp add: getDay_def WeekDay_def LocalTime_def Day_def msPerDay_def)

lemma eval_monday: "getMonday (fixedZone 0) 1766966400000 = 1766966400000"
  by (simp add: getMonday_eq LocalTime_def UTC_def MakeDate_def Day_def msPerDay_def)

lemma eval_thu: "getFullYear 0 (1766966400000 + 3 * msPerDay) = 2026"
  by (simp add: getFullYear_def LocalTime_def YearFromTime_def Day_def msPerDay_def
      yearDown.simps DayFromYear_def)

lemma eval_week: "getWeekNumber 0 1766966400000 = 53"
  by (simp add: getWeekNumber_int ceilDiv_eq eval_b eval_c eval_d msPerDay_def)

lemma eval_strings: "toString 2025 = ''2025''" "toString 2026 = ''2026''" "toString 53 = ''53''"
  by (simp_all add: toString_def digits.simps)

text \<open>A host parser on two date strings, used as a concrete input below.\<close>

definition parseFixture :: "string \<Rightarrow> int option" where
  "parseFixture str =
     (if str = ''2025-01-06'' then Some 1736121600000
      else if str = ''2025-01-13'' then Some 1736726400000
      else None)"

text \<open>
  The active week 2025-01-13 over the two archived weeks, with the given notes; and a
  stored record pair in which the archive record holds that week twice.
\<close>

definition weekState :: "(string \<times> ustring) list \<Rightarrow> AppState" where
  "weekState notes =
     (initialState 0 0)\<lparr>archives := [legacyArchive (utf16 ''note''), mapArchive],
       currentWeekStartDate := ''2025-01-13'', dailyThoughts := notes\<rparr>"

definition storedTwice :: "WeeklyArchive list" where
  "storedTwice = [mapArchive, mapArchive\<lparr>archive_id := ''a3''\<rparr>]"

definition storedView :: SavedData where
  "storedView =
     \<lparr>saved_tasks = Some [emptyTask], saved_goals = None, saved_dailyThoughts = None,
      saved_currentWeekStartDate = Some ''2025-01-13'', saved_weekLabel = None\<rparr>"





text \<open>
  Two zones with one clock change each, used as concrete inputs below: clocks that go
  from UTC-5 to UTC-4 on Sunday 2025-03-09 at 07:00 UTC (02:00 local), and clocks that go
  from UTC+3:30 to UTC+4:30 on 2021-03-21 at 20:30 UTC, which is 00:00 local of Monday
  2021-03-22, so that this Monday has no local midnight.
\<close>

definition easternZone :: Zone where
  "easternZone = springForward 1741503600000 (- 18000000) (- 14400000)"

definition midnightSkipZone :: Zone where
  "midnightSkipZone = springForward 1616358600000 12600000 16200000"

lemma eval_eastern:
  "mondayDay easternZone 1741575600000 = 20150"
  "TimeWithinDay (LocalTimeIn easternZone 1741575600000) = 82800000"
  "onItsDay easternZone (MakeDate 20150 82800000)"
  "onItsDay easternZone (MakeDate 20150 0)"
  "UTCIn easternZone (MakeDate 20150 0) = 1740978000000"
  "LocalTimeIn easternZone 1740978000000 = MakeDate 20150 0"
  "mondayDay easternZone 1741107600000 = 20150"
  "TimeWithinDay (LocalTimeIn easternZone 1741107600000) = 43200000"
  "onItsDay easternZone (MakeDate 20150 43200000)"
  by (simp_all add: mondayDay_def getDayIn_def WeekDay_def TimeWithinDay_def LocalTimeIn_def UTCIn_def
      onItsDay_def MakeDate_def Day_def msPerDay_def easternZone_def springForward_def)

lemma eval_skip:
  "mondayDay midnightSkipZone 1616571000000 = 18708"
  "TimeWithinDay (LocalTimeIn midnightSkipZone 1616571000000) = 43200000"
  "onItsDay midnightSkipZone (MakeDate 18708 43200000)"
  "UTCIn midnightSkipZone (MakeDate 18708 0) = 1616358600000"
  "LocalTimeIn midnightSkipZone 1616358600000 = MakeDate 18708 3600000"
  "getDayIn midnightSkipZone 1616358600000 = 1"
  by (simp_all add: mondayDay_def getDayIn_def WeekDay_def TimeWithinDay_def LocalTimeIn_def UTCIn_def
      onItsDay_def MakeDate_def Day_def msPerDay_def midnightSkipZone_def springForward_def)

section \<open>The claims\<close>

subsection \<open>Week calendar engine\<close>

text \<open>
  Claim C6, as the code has it.  \<open>getMonday\<close> is a function of the zone and the date,
  hence deterministic.  Let \<open>M\<close> be the local calendar day of \<open>D\<close> less
  \<open>(weekday(D) + 6) mod 7\<close> days, with Sunday = 0: the Monday of the week of \<open>D\<close>.  In a
  faithful zone that reads 00:00 of \<open>M\<close>, and the time of day of \<open>D\<close> taken on \<open>M\<close>, on
  the day \<open>M\<close>: \<open>getMonday D\<close> is the instant the zone gives for 00:00 of \<open>M\<close>; its
  local day is \<open>M\<close>, a Monday; its time of day is zero exactly when the clocks of the zone
  show 00:00 on \<open>M\<close>; \<open>getMonday\<close> of it is itself; and every date of the same
  Monday-anchored week, under the same condition, has the same result.  In a zone without
  clock changes the conditions hold of every date and every local time exists; the result
  is \<open>D\<close> less \<open>(weekday(D) + 6) mod 7\<close> days with the time of day set to zero, \<open>D\<close> lies
  in the seven days that start at it, and every date in those seven days has that result.
\<close>

theorem getMonday_week_start:
  "(faithful z
      \<and> onItsDay z (MakeDate (mondayDay z D) (TimeWithinDay (LocalTimeIn z D)))
      \<and> onItsDay z (MakeDate (mondayDay z D) 0) \<longrightarrow>
      getMonday z D = UTCIn z (MakeDate (mondayDay z D) 0)
      \<and> Day (LocalTimeIn z (getMonday z D)) = mondayDay z D
      \<and> getDayIn z (getMonday z D) = 1
      \<and> (TimeWithinDay (LocalTimeIn z (getMonday z D)) = 0
           \<longleftrightarrow> (\<exists>t. LocalTimeIn z t = MakeDate (mondayDay z D) 0))
      \<and> getMonday z (getMonday z D) = getMonday z D
      \<and> (\<forall>D'. mondayDay z D' = mondayDay z D
              \<and> onItsDay z (MakeDate (mondayDay z D') (TimeWithinDay (LocalTimeIn z D')))
            \<longrightarrow> getMonday z D' = getMonday z D))
   \<and> mondayDay z D = Day (LocalTimeIn z D) - (getDayIn z D + 6) mod 7
   \<and> mondayDay z D = 7 * ((Day (LocalTimeIn z D) + 3) div 7) - 3
   \<and> faithful (fixedZone tza) \<and> (\<forall>x. onItsDay (fixedZone tza) x)
   \<and> (\<forall>x. LocalTimeIn (fixedZone tza) (UTCIn (fixedZone tza) x) = x)
   \<and> getMonday (fixedZone tza) D = setHours0 tza (D - ((getDay tza D + 6) mod 7) * msPerDay)
   \<and> TimeWithinDay (LocalTime tza (getMonday (fixedZone tza) D)) = 0
   \<and> getMonday (fixedZone tza) D \<le> D \<and> D < getMonday (fixedZone tza) D + 7 * msPerDay
   \<and> (\<forall>D'. getMonday (fixedZone tza) D \<le> D' \<and> D' < getMonday (fixedZone tza) D + 7 * msPerDay
          \<longrightarrow> getMonday (fixedZone tza) D' = getMonday (fixedZone tza) D)"
proof -
  have g: "getMonday z D = UTCIn z (MakeDate (mondayDay z D) 0)
      \<and> Day (LocalTimeIn z (getMonday z D)) = mondayDay z D
      \<and> getDayIn z (getMonday z D) = 1
      \<and> (TimeWithinDay (LocalTimeIn z (getMonday z D)) = 0
           \<longleftrightarrow> (\<exists>t. LocalTimeIn z t = MakeDate (mondayDay z D) 0))
      \<and> getMonday z (getMonday z D) = getMonday z D
      \<and> (\<forall>D'. mondayDay z D' = mondayDay z D
              \<and> onItsDay z (MakeDate (mondayDay z D') (TimeWithinDay (LocalTimeIn z D')))
            \<longrightarrow> getMonday z D' = getMonday z D)"
    if h: "faithful z" "onItsDay z (MakeDate (mondayDay z D) (TimeWithinDay (LocalTimeIn z D)))"
      "onItsDay z (MakeDate (mondayDay z D) 0)"
  proof -
    have 1: "getMonday z D = UTCIn z (MakeDate (mondayDay z D) 0)"
      by (rule getMonday_value [OF h(2)])
    have 2: "Day (LocalTimeIn z (getMonday z D)) = mondayDay z D"
      and 3: "getDayIn z (getMonday z D) = 1"
      by (rule getMonday_day [OF h(2,3)])+
    have 4: "TimeWithinDay (LocalTimeIn z (getMonday z D)) = 0
           \<longleftrightarrow> (\<exists>t. LocalTimeIn z t = MakeDate (mondayDay z D) 0)"
      by (rule getMonday_midnight [OF h(2,3,1)])
    have 5: "getMonday z (getMonday z D) = getMonday z D"
      by (rule getMonday_idem [OF h(2,3,1)])
    have "getMonday z D' = getMonday z D"
      if "mondayDay z D' = mondayDay z D"
        "onItsDay z (MakeDate (mondayDay z D') (TimeWithinDay (LocalTimeIn z D')))" for D'
      unfolding 1 getMonday_value [OF that(2)] that(1) ..
    then have 6: "\<forall>D'. mondayDay z D' = mondayDay z D
              \<and> onItsDay z (MakeDate (mondayDay z D') (TimeWithinDay (LocalTimeIn z D')))
            \<longrightarrow> getMonday z D' = getMonday z D"
      by blast
    from 1 2 3 4 5 6 show ?thesis by (intro conjI)
  qed
  have a: "mondayDay z D = Day (LocalTimeIn z D) - (getDayIn z D + 6) mod 7"
    by (rule mondayDay_def)
  have b: "mondayDay z D = 7 * ((Day (LocalTimeIn z D) + 3) div 7) - 3"
    by (rule mondayDay_eq)
  have c: "faithful (fixedZone tza)" and d: "\<forall>x. onItsDay (fixedZone tza) x"
    by (simp_all add: fixedZone_faithful)
  have e: "\<forall>x. LocalTimeIn (fixedZone tza) (UTCIn (fixedZone tza) x) = x"
    by (simp add: LocalTimeIn_def UTCIn_def fixedZone_def)
  have r: "0 \<le> getDay tza D" "getDay tza D < 7" by (rule getDay_range)+
  have "- getDay tza D + (if getDay tza D = 0 then - 6 else 1) = - ((getDay tza D + 6) mod 7)"
    using r by presburger
  then have diff: "getDate tza D - getDay tza D + (if getDay tza D = 0 then - 6 else 1)
      = getDate tza D + (- ((getDay tza D + 6) mod 7))"
    by simp
  have f: "getMonday (fixedZone tza) D = setHours0 tza (D - ((getDay tza D + 6) mod 7) * msPerDay)"
    unfolding getMonday_fixed diff setDate_getDate by simp
  have g': "faithful z
      \<and> onItsDay z (MakeDate (mondayDay z D) (TimeWithinDay (LocalTimeIn z D)))
      \<and> onItsDay z (MakeDate (mondayDay z D) 0) \<longrightarrow>
      getMonday z D = UTCIn z (MakeDate (mondayDay z D) 0)
      \<and> Day (LocalTimeIn z (getMonday z D)) = mondayDay z D
      \<and> getDayIn z (getMonday z D) = 1
      \<and> (TimeWithinDay (LocalTimeIn z (getMonday z D)) = 0
           \<longleftrightarrow> (\<exists>t. LocalTimeIn z t = MakeDate (mondayDay z D) 0))
      \<and> getMonday z (getMonday z D) = getMonday z D
      \<and> (\<forall>D'. mondayDay z D' = mondayDay z D
              \<and> onItsDay z (MakeDate (mondayDay z D') (TimeWithinDay (LocalTimeIn z D')))
            \<longrightarrow> getMonday z D' = getMonday z D)"
    using g by blast
  have h: "TimeWithinDay (LocalTime tza (getMonday (fixedZone tza) D)) = 0"
    by (simp add: getMonday_local Day_MakeDate0)
  have i: "getMonday (fixedZone tza) D \<le> D" and j: "D < getMonday (fixedZone tza) D + 7 * msPerDay"
    by (rule getMonday_contains)+
  have k: "\<forall>D'. getMonday (fixedZone tza) D \<le> D' \<and> D' < getMonday (fixedZone tza) D + 7 * msPerDay
          \<longrightarrow> getMonday (fixedZone tza) D' = getMonday (fixedZone tza) D"
    using getMonday_same_week [of tza D] by simp
  from g' a b c d e f h i j k show ?thesis by (intro conjI)
qed

theorem getMonday_week_start_witness:
  "faithful easternZone
   \<and> onItsDay easternZone
        (MakeDate (mondayDay easternZone 1741575600000) (TimeWithinDay (LocalTimeIn easternZone 1741575600000)))
   \<and> onItsDay easternZone (MakeDate (mondayDay easternZone 1741575600000) 0)
   \<and> getMonday easternZone 1741575600000 = 1740978000000
   \<and> TimeWithinDay (LocalTimeIn easternZone (getMonday easternZone 1741575600000)) = 0
   \<and> getMonday easternZone (getMonday easternZone 1741575600000) = getMonday easternZone 1741575600000
   \<and> getMonday easternZone 1741107600000 = getMonday easternZone 1741575600000"
proof -
  have f: "faithful easternZone" by (simp add: easternZone_def springForward_faithful)
  have h1: "onItsDay easternZone
        (MakeDate (mondayDay easternZone 1741575600000) (TimeWithinDay (LocalTimeIn easternZone 1741575600000)))"
    by (simp only: eval_eastern)
  have h2: "onItsDay easternZone (MakeDate (mondayDay easternZone 1741575600000) 0)"
    by (simp only: eval_eastern)
  have h3: "mondayDay easternZone 1741107600000 = mondayDay easternZone 1741575600000
      \<and> onItsDay easternZone
        (MakeDate (mondayDay easternZone 1741107600000) (TimeWithinDay (LocalTimeIn easternZone 1741107600000)))"
    by (simp only: eval_eastern)
  note t = getMonday_week_start [of easternZone 1741575600000 0]
  from t f h1 h2 have v: "getMonday easternZone 1741575600000
      = UTCIn easternZone (MakeDate (mondayDay easternZone 1741575600000) 0)"
    by blast
  then have v': "getMonday easternZone 1741575600000 = 1740978000000"
    by (simp only: eval_eastern)
  from t f h1 h2 have "TimeWithinDay (LocalTimeIn easternZone (getMonday easternZone 1741575600000)) = 0
      \<longleftrightarrow> (\<exists>t. LocalTimeIn easternZone t = MakeDate (mondayDay easternZone 1741575600000) 0)"
    by blast
  moreover have "\<exists>t. LocalTimeIn easternZone t = MakeDate (mondayDay easternZone 1741575600000) 0"
    using eval_eastern(6) by (intro exI [of _ 1740978000000]) (simp only: eval_eastern)
  ultimately have m: "TimeWithinDay (LocalTimeIn easternZone (getMonday easternZone 1741575600000)) = 0"
    by blast
  from t f h1 h2 have i: "getMonday easternZone (getMonday easternZone 1741575600000)
      = getMonday easternZone 1741575600000"
    by blast
  from t f h1 h2 h3 have w: "getMonday easternZone 1741107600000 = getMonday easternZone 1741575600000"
    by blast
  from f h1 h2 v' m i w show ?thesis by (intro conjI)
qed

text \<open>
  Claim C6 as stated fails where a clock change skips the midnight of the Monday: the
  result is the instant of the change, 01:00 of that Monday, and its time of day is not
  zero.
\<close>

theorem getMonday_skipped_midnight_counterexample:
  "getMonday midnightSkipZone 1616571000000 = 1616358600000
   \<and> getDayIn midnightSkipZone (getMonday midnightSkipZone 1616571000000) = 1
   \<and> TimeWithinDay (LocalTimeIn midnightSkipZone (getMonday midnightSkipZone 1616571000000)) = 3600000
   \<and> TimeWithinDay (LocalTimeIn midnightSkipZone (getMonday midnightSkipZone 1616571000000)) \<noteq> 0"
proof -
  have "onItsDay midnightSkipZone
      (MakeDate (mondayDay midnightSkipZone 1616571000000)
         (TimeWithinDay (LocalTimeIn midnightSkipZone 1616571000000)))"
    by (simp only: eval_skip)
  then have "getMonday midnightSkipZone 1616571000000
      = UTCIn midnightSkipZone (MakeDate (mondayDay midnightSkipZone 1616571000000) 0)"
    by (rule getMonday_value)
  then have v: "getMonday midnightSkipZone 1616571000000 = 1616358600000"
    by (simp only: eval_skip)
  have d: "getDayIn midnightSkipZone (getMonday midnightSkipZone 1616571000000) = 1"
    by (simp only: v eval_skip)
  have t: "TimeWithinDay (LocalTimeIn midnightSkipZone (getMonday midnightSkipZone 1616571000000)) = 3600000"
    by (simp add: v eval_skip TimeWithinDay_def MakeDate_def msPerDay_def)
  then have n: "TimeWithinDay (LocalTimeIn midnightSkipZone (getMonday midnightSkipZone 1616571000000)) \<noteq> 0"
    by simp
  from v d t n show ?thesis by (intro conjI)
qed

text \<open>
  Claim C3.  The week that starts on a date \<open>D\<close> is assigned to the year and month of
  \<open>D\<close> plus three days, which is a Thursday when \<open>D\<close> is a Monday.  For every year \<open>Y\<close>
  (beyond the two-digit years that \<open>new Date(y, m, d)\<close> reads as 19xx), the week starting
  on December 29 of \<open>Y\<close> is assigned to January of \<open>Y + 1\<close>, and the week starting on
  December 25 of \<open>Y\<close> to December of \<open>Y\<close>.
\<close>

theorem getMajorityMonthInfo_thursday:
  "getMajorityMonthInfo tza D =
     \<lparr>year = getFullYear tza (D + 3 * msPerDay), monthIndex = getMonth tza (D + 3 * msPerDay)\<rparr>
   \<and> (getDay tza D = 1 \<longrightarrow> getDay tza (D + 3 * msPerDay) = 4)
   \<and> (99 < Y \<longrightarrow>
        getMajorityMonthInfo tza (DateYMD tza Y 11 29) = \<lparr>year = Y + 1, monthIndex = 0\<rparr>
      \<and> getMajorityMonthInfo tza (DateYMD tza Y 11 25) = \<lparr>year = Y, monthIndex = 11\<rparr>)"
proof -
  have "getMajorityMonthInfo tza (DateYMD tza Y 11 29) = \<lparr>year = Y + 1, monthIndex = 0\<rparr>" if "99 < Y"
  proof -
    have "Day (MakeDate (MakeDay Y 11 29) 0 + 3 * msPerDay) = DayFromYear (Y + 1)"
      by (simp add: Day_add_days Day_MakeDate0 MakeDay_december)
    from MonthFromTime_jan1 [OF this] show ?thesis
      using that
      by (simp add: getMajorityMonthInfo_eq getFullYear_def getMonth_def DateYMD_def LocalTime_def UTC_def)
  qed
  moreover have "getMajorityMonthInfo tza (DateYMD tza Y 11 25) = \<lparr>year = Y, monthIndex = 11\<rparr>" if "99 < Y"
  proof -
    have "Day (MakeDate (MakeDay Y 11 25) 0 + 3 * msPerDay) = DayFromYear (Y + 1) - 4"
      by (simp add: Day_add_days Day_MakeDate0 MakeDay_december)
    from MonthFromTime_dec28 [OF this] show ?thesis
      using that
      by (simp add: getMajorityMonthInfo_eq getFullYear_def getMonth_def DateYMD_def LocalTime_def UTC_def)
  qed
  ultimately have e: "99 < Y \<longrightarrow>
        getMajorityMonthInfo tza (DateYMD tza Y 11 29) = \<lparr>year = Y + 1, monthIndex = 0\<rparr>
      \<and> getMajorityMonthInfo tza (DateYMD tza Y 11 25) = \<lparr>year = Y, monthIndex = 11\<rparr>"
    by simp
  have f: "getDay tza D = 1 \<longrightarrow> getDay tza (D + 3 * msPerDay) = 4"
    using getDay_plus3 [of tza D] by simp
  from getMajorityMonthInfo_eq [of tza D] f e show ?thesis by (intro conjI)
qed

theorem getMajorityMonthInfo_thursday_witness:
  "getDay 0 (DateYMD 0 2025 11 29) = 1
   \<and> getDay 0 (DateYMD 0 2025 11 29 + 3 * msPerDay) = 4
   \<and> (99::int) < 2025
   \<and> getMajorityMonthInfo 0 (DateYMD 0 2025 11 29) = \<lparr>year = 2026, monthIndex = 0\<rparr>
   \<and> getMajorityMonthInfo 0 (DateYMD 0 2025 11 25) = \<lparr>year = 2025, monthIndex = 11\<rparr>"
proof -
  have m: "getDay 0 (DateYMD 0 2025 11 29) = 1"
    by (simp add: getDay_def WeekDay_def LocalTime_def DateYMD_def UTC_def Day_MakeDate0
        MakeDay_def monthStart_def DayFromYear_def DaysInYear_def)
  have y: "(99::int) < 2025" by simp
  note t = getMajorityMonthInfo_thursday [of 0 "DateYMD 0 2025 11 29" 2025]
  from t m have a: "getDay 0 (DateYMD 0 2025 11 29 + 3 * msPerDay) = 4" by blast
  from t y have "getMajorityMonthInfo 0 (DateYMD 0 2025 11 29) = \<lparr>year = 2025 + 1, monthIndex = 0\<rparr>
      \<and> getMajorityMonthInfo 0 (DateYMD 0 2025 11 25) = \<lparr>year = 2025, monthIndex = 11\<rparr>"
    by blast
  then have b: "getMajorityMonthInfo 0 (DateYMD 0 2025 11 29) = \<lparr>year = 2026, monthIndex = 0\<rparr>
      \<and> getMajorityMonthInfo 0 (DateYMD 0 2025 11 25) = \<lparr>year = 2025, monthIndex = 11\<rparr>"
    by simp
  from m a y b show ?thesis by (intro conjI) simp_all
qed

text \<open>
  Claim C7, as the code has it.  The week label of a date \<open>D\<close> is the calendar year of
  \<open>D\<close> (\<open>getFullYear\<close>, not the ISO week-numbering year), the text \<open>- Week\<close> and the
  number \<open>N = ceil(((D - Jan1) in days + weekday(Jan1) + 1) / 7)\<close>, where \<open>Jan1\<close> is
  \<open>new Date(year, 0, 1)\<close> and weekdays are numbered from Sunday = 0.  In integers, \<open>N\<close> is
  the milliseconds since \<open>Jan1\<close> plus \<open>weekday(Jan1) + 1\<close> days, divided by the milliseconds
  of a week and rounded up.  \<open>Jan1\<close> is the local midnight that starts the calendar year
  of \<open>D\<close>, except that the host reads a year from 0 to 99 as 1900 plus that year: there
  \<open>Jan1\<close> starts that later year.  Outside the years 0 to 99, \<open>N\<close> lies between 1 and 54.
\<close>

theorem generateWeekLabel_format:
  "generateWeekLabel tza D
     = toString (getFullYear tza D) @ '' - Week '' @ toString (getWeekNumber tza D)
   \<and> getWeekNumber tza D
     = \<lceil>(((of_int (D - DateYMD tza (getFullYear tza D) 0 1) :: rat) / 86400000)
          + of_int (getDay tza (DateYMD tza (getFullYear tza D) 0 1)) + 1) / 7\<rceil>
   \<and> getWeekNumber tza D
     = - ((- (D - DateYMD tza (getFullYear tza D) 0 1
              + (getDay tza (DateYMD tza (getFullYear tza D) 0 1) + 1) * msPerDay)) div (7 * msPerDay))
   \<and> LocalTime tza (DateYMD tza (getFullYear tza D) 0 1)
     = DayFromYear (if 0 \<le> getFullYear tza D \<and> getFullYear tza D \<le> 99
                    then 1900 + getFullYear tza D else getFullYear tza D) * msPerDay
   \<and> (getFullYear tza D < 0 \<or> 99 < getFullYear tza D \<longrightarrow>
        1 \<le> getWeekNumber tza D \<and> getWeekNumber tza D \<le> 54)"
proof -
  have a: "getWeekNumber tza D
     = \<lceil>(((of_int (D - DateYMD tza (getFullYear tza D) 0 1) :: rat) / 86400000)
          + of_int (getDay tza (DateYMD tza (getFullYear tza D) 0 1)) + 1) / 7\<rceil>"
    by (simp add: getWeekNumber_def Let_def)
  have b: "getWeekNumber tza D
     = - ((- (D - DateYMD tza (getFullYear tza D) 0 1
              + (getDay tza (DateYMD tza (getFullYear tza D) 0 1) + 1) * msPerDay)) div (7 * msPerDay))"
    by (simp only: getWeekNumber_int ceilDiv_eq)
  have c: "getFullYear tza D < 0 \<or> 99 < getFullYear tza D \<longrightarrow>
        1 \<le> getWeekNumber tza D \<and> getWeekNumber tza D \<le> 54"
    using getWeekNumber_range [of tza D] by blast
  have e: "LocalTime tza (DateYMD tza (getFullYear tza D) 0 1)
     = DayFromYear (if 0 \<le> getFullYear tza D \<and> getFullYear tza D \<le> 99
                    then 1900 + getFullYear tza D else getFullYear tza D) * msPerDay"
    by (rule onejan_any)
  have d: "generateWeekLabel tza D
     = toString (getFullYear tza D) @ '' - Week '' @ toString (getWeekNumber tza D)"
    by (simp add: generateWeekLabel_def)
  from d a b e c show ?thesis by (intro conjI)
qed

theorem generateWeekLabel_format_witness:
  "DateYMD 0 2025 11 29 = 1766966400000
   \<and> (99::int) < getFullYear 0 1766966400000
   \<and> generateWeekLabel 0 1766966400000 = ''2025 - Week 53''
   \<and> 1 \<le> getWeekNumber 0 1766966400000 \<and> getWeekNumber 0 1766966400000 \<le> 54"
proof -
  note t = generateWeekLabel_format [of 0 1766966400000]
  have y: "(99::int) < getFullYear 0 1766966400000" by (simp add: eval_b)
  from t have "generateWeekLabel 0 1766966400000
     = toString (getFullYear 0 1766966400000) @ '' - Week '' @ toString (getWeekNumber 0 1766966400000)"
    by (elim conjE)
  then have l: "generateWeekLabel 0 1766966400000 = ''2025 - Week 53''"
    unfolding eval_b eval_week eval_strings by simp
  from t y have r: "1 \<le> getWeekNumber 0 1766966400000 \<and> getWeekNumber 0 1766966400000 \<le> 54"
    by blast
  from eval_a y l r show ?thesis by (intro conjI) simp_all
qed

text \<open>
  Claim C7 as stated fails in the year: for Monday 2025-12-29, whose ISO week-numbering
  year is 2026, the label reads 2025.
\<close>

theorem generateWeekLabel_iso_year_counterexample:
  "DateYMD 0 2025 11 29 = 1766966400000
   \<and> generateWeekLabel 0 1766966400000 = ''2025 - Week 53''
   \<and> spec_isoWeekYear 0 1766966400000 = 2026
   \<and> generateWeekLabel 0 1766966400000
       \<noteq> toString (spec_isoWeekYear 0 1766966400000) @ '' - Week ''
           @ toString (getWeekNumber 0 1766966400000)"
proof -
  have a: "generateWeekLabel 0 1766966400000 = ''2025 - Week 53''"
    unfolding generateWeekLabel_def eval_b eval_week eval_strings by simp
  have b: "spec_isoWeekYear 0 1766966400000 = 2026"
    unfolding spec_isoWeekYear_def eval_monday by (rule eval_thu)
  have c: "generateWeekLabel 0 1766966400000
       \<noteq> toString (spec_isoWeekYear 0 1766966400000) @ '' - Week ''
           @ toString (getWeekNumber 0 1766966400000)"
    unfolding a b eval_week eval_strings by simp
  from eval_a a b c show ?thesis by (intro conjI)
qed




subsection \<open>Session timer\<close>



text \<open>
  Claim C4, as the code has it.  For a goal identifier that is not the active timer's
  (also when there is no timer): \<open>stopTimer\<close> returns the state unchanged; \<open>toggleTimer\<close>
  starts a new running timer for that goal (start instant \<open>now\<close>, nothing accumulated),
  dropping any other timer, and sets the displayed time to 0, leaving the rest of the state,
  the task list included, unchanged.  Neither raises an error.
\<close>

theorem timer_other_goal:
  assumes "map_option goalId (activeTimer s) \<noteq> Some gid"
  shows "stopTimer tza now1 now2 now3 newId gid s = s
     \<and> toggleTimer now gid s =
         s\<lparr>activeTimer :=
             Some \<lparr>goalId = gid, timer_startTime = now, accumulated = 0, isRunning = True\<rparr>,
           timerDisplay := 0\<rparr>"
  using assms by (cases "activeTimer s") (simp_all add: stopTimer_def toggleTimer_def)

theorem timer_other_goal_witness:
  "map_option goalId (activeTimer (initialState 0 0)) \<noteq> Some ''g1''
   \<and> stopTimer 0 7 8 9 ''id'' ''g1'' (initialState 0 0) = initialState 0 0
   \<and> activeTimer (toggleTimer 5 ''g1'' (initialState 0 0))
       = Some \<lparr>goalId = ''g1'', timer_startTime = 5, accumulated = 0, isRunning = True\<rparr>"
proof -
  have h: "map_option goalId (activeTimer (initialState 0 0)) \<noteq> Some ''g1''"
    by (simp add: initialState_def)
  from timer_other_goal [OF h, of 0 7 8 9 "''id''" 5] h show ?thesis by simp
qed

text \<open>
  Claim C4 as stated fails for \<open>toggleTimer\<close>: in the initial state, with no timer, toggling
  a goal changes the timer state.
\<close>

theorem toggle_other_goal_counterexample:
  "map_option goalId (activeTimer (initialState 0 0)) \<noteq> Some ''g1''
   \<and> activeTimer (initialState 0 0) = None
   \<and> toggleTimer 5 ''g1'' (initialState 0 0) \<noteq> initialState 0 0
   \<and> activeTimer (toggleTimer 5 ''g1'' (initialState 0 0)) \<noteq> activeTimer (initialState 0 0)"
proof -
  have a: "activeTimer (initialState 0 0) = None" by (simp add: initialState_def)
  have b: "activeTimer (toggleTimer 5 ''g1'' (initialState 0 0)) \<noteq> activeTimer (initialState 0 0)"
    by (simp add: toggleTimer_def a)
  then have c: "toggleTimer 5 ''g1'' (initialState 0 0) \<noteq> initialState 0 0" by auto
  from a b c show ?thesis by simp
qed

subsection \<open>Editing tasks\<close>

text \<open>
  Claim C10, as the code has it.  A payload whose \<open>id\<close> is a non-empty string \<open>i\<close>: the
  task list keeps its length and the order of its identifiers, every task whose \<open>id\<close> is
  \<open>i\<close> is merged with the payload, every other task is unchanged, and so is the rest of the
  state.  A payload without an \<open>id\<close> (absent, undefined or the empty string): one new task
  is appended, with the generated identifier and \<open>isCompleted\<close> false, the existing tasks
  unchanged.
\<close>

theorem handleSaveTask_frame:
  "(p_id taskData = Some (Some i) \<and> i \<noteq> [] \<longrightarrow>
      handleSaveTask newId taskData s =
        s\<lparr>tasks := map (\<lambda>t. if task_id t = Some i then mergeTask t taskData else t) (tasks s)\<rparr>
      \<and> length (tasks (handleSaveTask newId taskData s)) = length (tasks s)
      \<and> map task_id (tasks (handleSaveTask newId taskData s)) = map task_id (tasks s)
      \<and> (\<forall>k < length (tasks s). task_id (tasks s ! k) \<noteq> Some i \<longrightarrow>
            tasks (handleSaveTask newId taskData s) ! k = tasks s ! k))
   \<and> (\<not> truthy (spread None (p_id taskData)) \<longrightarrow>
        (\<exists>n. handleSaveTask newId taskData s = s\<lparr>tasks := tasks s @ [n]\<rparr>
           \<and> isCompleted n = Some False \<and> task_id n = Some newId
           \<and> n = (mergeTask emptyTask taskData)\<lparr>task_id := Some newId, isCompleted := Some False\<rparr>))"
proof -
  have "map task_id (map (\<lambda>t. if task_id t = Some i then mergeTask t taskData else t) ts) = map task_id ts"
    if "p_id taskData = Some (Some i)" for ts
    using that by (induction ts) (simp_all add: mergeTask_same_id)
  then show ?thesis
    by (simp add: handleSaveTask_def truthy_def spread_def Let_def)
qed

theorem handleSaveTask_frame_witness:
  "length (tasks (handleSaveTask ''n1''
       \<lparr>p_id = Some (Some ''a''), p_title = Some (Some ''x''), p_description = None, p_dayIndex = None,
        p_startTime = None, p_duration = None, p_isCompleted = None, p_color = None\<rparr>
      ((initialState 0 0)\<lparr>tasks := [emptyTask\<lparr>task_id := Some ''a''\<rparr>, emptyTask\<lparr>task_id := Some ''b''\<rparr>]\<rparr>))) = 2
   \<and> tasks (handleSaveTask ''n1''
       \<lparr>p_id = Some (Some ''a''), p_title = Some (Some ''x''), p_description = None, p_dayIndex = None,
        p_startTime = None, p_duration = None, p_isCompleted = None, p_color = None\<rparr>
      ((initialState 0 0)\<lparr>tasks := [emptyTask\<lparr>task_id := Some ''a''\<rparr>, emptyTask\<lparr>task_id := Some ''b''\<rparr>]\<rparr>)) ! 1
      = emptyTask\<lparr>task_id := Some ''b''\<rparr>"
proof -
  define p where "p = \<lparr>p_id = Some (Some ''a''), p_title = Some (Some ''x''), p_description = None, p_dayIndex = None,
        p_startTime = None, p_duration = None, p_isCompleted = None, p_color = None\<rparr>"
  define s where "s = (initialState 0 0)\<lparr>tasks := [emptyTask\<lparr>task_id := Some ''a''\<rparr>, emptyTask\<lparr>task_id := Some ''b''\<rparr>]\<rparr>"
  have h: "p_id p = Some (Some ''a'') \<and> ''a'' \<noteq> []" by (simp add: p_def)
  have l: "length (tasks s) = 2" by (simp add: s_def)
  have k: "task_id (tasks s ! 1) \<noteq> Some ''a''" by (simp add: s_def emptyTask_def)
  from handleSaveTask_frame [of p "''a''" "''n1''" s] h
  have "length (tasks (handleSaveTask ''n1'' p s)) = length (tasks s)"
    and "\<forall>k < length (tasks s). task_id (tasks s ! k) \<noteq> Some ''a'' \<longrightarrow>
            tasks (handleSaveTask ''n1'' p s) ! k = tasks s ! k"
    by blast+
  with l k have "length (tasks (handleSaveTask ''n1'' p s)) = 2"
    and "tasks (handleSaveTask ''n1'' p s) ! 1 = tasks s ! 1" by simp_all
  then show ?thesis unfolding p_def s_def by simp
qed

text \<open>
  Claim C10 as stated fails for the empty identifier: the payload carries the \<open>id\<close> of the
  one existing task, and the list grows.
\<close>

theorem handleSaveTask_empty_id_counterexample:
  "task_id (emptyTask\<lparr>task_id := Some []\<rparr>) = Some []
   \<and> length (tasks (handleSaveTask ''n1''
       \<lparr>p_id = Some (Some []), p_title = None, p_description = None, p_dayIndex = None,
        p_startTime = None, p_duration = None, p_isCompleted = None, p_color = None\<rparr>
      ((initialState 0 0)\<lparr>tasks := [emptyTask\<lparr>task_id := Some []\<rparr>]\<rparr>)))
     \<noteq> length (tasks ((initialState 0 0)\<lparr>tasks := [emptyTask\<lparr>task_id := Some []\<rparr>]\<rparr>))"
  by (simp add: handleSaveTask_def truthy_def spread_def emptyTask_def)

subsection \<open>Archive synchronizer\<close>

text \<open>
  Claim C2, as the code has it.  A synchronization step is \<open>syncArchives\<close>, the update
  that the auto-sync effect applies once the data is loaded and a week is active.
  \<open>hasContent\<close> holds when there is a task, a goal, or a note whose trimmed text is not
  empty, that is, a note with a code unit that is not white space.  The step acts on the
  first entry of the active week: without content that entry is removed; with content it
  becomes the fresh snapshot under the same identifier; the entries before and after it
  stay as they are.  When the active week has no entry, nothing changes without content,
  and with content a snapshot with the newly generated identifier is put in front.  A step
  that changes anything writes the collection to the device storage.  So a step takes a
  collection with at most one entry per \<open>weekStartDate\<close> to such a collection; it does
  not make one from a collection that holds a week twice.
\<close>

theorem archive_sync_invariant:
  "autoSyncEffect newId s =
       (if isLoaded s \<and> currentWeekStartDate s \<noteq> [] then syncArchives newId s else s)
   \<and> hasContent s =
       (tasks s \<noteq> [] \<or> goals s \<noteq> [] \<or> (\<exists>t\<in>set (map snd (dailyThoughts s)). trim t \<noteq> []))
   \<and> hasContent s =
       (tasks s \<noteq> [] \<or> goals s \<noteq> []
        \<or> (\<exists>t\<in>set (map snd (dailyThoughts s)). \<exists>c\<in>set t. \<not> isWhiteSpace c))
   \<and> (\<forall>xs a ys. archives s = xs @ a # ys \<and> weekStartDate a = currentWeekStartDate s
          \<and> (\<forall>b\<in>set xs. weekStartDate b \<noteq> currentWeekStartDate s) \<longrightarrow>
        archives (syncArchives newId s)
          = (if hasContent s then xs @ snapshot (archive_id a) s # ys else xs @ ys))
   \<and> ((\<forall>b\<in>set (archives s). weekStartDate b \<noteq> currentWeekStartDate s) \<longrightarrow>
        syncArchives newId s =
          (if hasContent s
           then s\<lparr>archives := snapshot newId s # archives s,
                  historyStore := Some (snapshot newId s # archives s)\<rparr>
           else s))
   \<and> (distinct (map weekStartDate (archives s)) \<longrightarrow>
        distinct (map weekStartDate (archives (syncArchives newId s)))
        \<and> distinct (map weekStartDate (archives (autoSyncEffect newId s))))
   \<and> (syncArchives newId s = s \<or>
        syncArchives newId s =
          s\<lparr>archives := archives (syncArchives newId s),
            historyStore := Some (archives (syncArchives newId s))\<rparr>)"
proof -
  have b: "autoSyncEffect newId s =
       (if isLoaded s \<and> currentWeekStartDate s \<noteq> [] then syncArchives newId s else s)"
    by (simp add: autoSyncEffect_def)
  have d: "hasContent s =
       (tasks s \<noteq> [] \<or> goals s \<noteq> [] \<or> (\<exists>t\<in>set (map snd (dailyThoughts s)). trim t \<noteq> []))"
    by (simp add: hasContent_def list_ex_iff)
  have d': "hasContent s =
       (tasks s \<noteq> [] \<or> goals s \<noteq> []
        \<or> (\<exists>t\<in>set (map snd (dailyThoughts s)). \<exists>c\<in>set t. \<not> isWhiteSpace c))"
    unfolding d trim_nonempty ..
  have e: "\<forall>xs a ys. archives s = xs @ a # ys \<and> weekStartDate a = currentWeekStartDate s
          \<and> (\<forall>b\<in>set xs. weekStartDate b \<noteq> currentWeekStartDate s) \<longrightarrow>
        archives (syncArchives newId s)
          = (if hasContent s then xs @ snapshot (archive_id a) s # ys else xs @ ys)"
    using syncArchives_first [of s _ _ _ newId] by blast
  have g: "(\<forall>b\<in>set (archives s). weekStartDate b \<noteq> currentWeekStartDate s) \<longrightarrow>
        syncArchives newId s =
          (if hasContent s
           then s\<lparr>archives := snapshot newId s # archives s,
                  historyStore := Some (snapshot newId s # archives s)\<rparr>
           else s)"
    using syncArchives_absent [of s newId] by blast
  have a: "distinct (map weekStartDate (archives s)) \<longrightarrow>
        distinct (map weekStartDate (archives (syncArchives newId s)))
        \<and> distinct (map weekStartDate (archives (autoSyncEffect newId s)))"
    using syncArchives_distinct [of s newId] by (simp add: b)
  from b d d' e g a syncArchives_frame [of newId s] show ?thesis by (intro conjI)
qed

theorem archive_sync_invariant_witness:
  "distinct (map weekStartDate (archives (weekState [(''Mon'', [0x00A0, 0x3000])])))
   \<and> \<not> hasContent (weekState [(''Mon'', [0x00A0, 0x3000])])
   \<and> archives (syncArchives ''n1'' (weekState [(''Mon'', [0x00A0, 0x3000])]))
      = [legacyArchive (utf16 ''note'')]
   \<and> hasContent (weekState [(''Mon'', utf16 '' ok'')])
   \<and> archives (syncArchives ''n1'' (weekState [(''Mon'', utf16 '' ok'')]))
      = [legacyArchive (utf16 ''note''), snapshot ''a2'' (weekState [(''Mon'', utf16 '' ok'')])]
   \<and> distinct (map weekStartDate (archives (syncArchives ''n1'' (weekState [(''Mon'', utf16 '' ok'')]))))
   \<and> archives (syncArchives ''n1''
        ((weekState [(''Mon'', utf16 '' ok'')])\<lparr>currentWeekStartDate := ''2025-01-20''\<rparr>))
      = snapshot ''n1'' ((weekState [(''Mon'', utf16 '' ok'')])\<lparr>currentWeekStartDate := ''2025-01-20''\<rparr>)
          # [legacyArchive (utf16 ''note''), mapArchive]"
proof -
  define s3 where "s3 = (weekState [(''Mon'', utf16 '' ok'')])\<lparr>currentWeekStartDate := ''2025-01-20''\<rparr>"
  have k3: "\<forall>b\<in>set (archives s3). weekStartDate b \<noteq> currentWeekStartDate s3"
    by (simp add: s3_def weekState_def legacyArchive_def mapArchive_def)
  have n3: "hasContent s3"
    by (simp add: s3_def weekState_def hasContent_def initialState_def trim_def isWhiteSpace_def
        utf16_def)
  have a3: "archives s3 = [legacyArchive (utf16 ''note''), mapArchive]"
    by (simp add: s3_def weekState_def)
  note t3 = archive_sync_invariant [of "''n1''" s3]
  from t3 k3 have "syncArchives ''n1'' s3 =
          (if hasContent s3
           then s3\<lparr>archives := snapshot ''n1'' s3 # archives s3,
                  historyStore := Some (snapshot ''n1'' s3 # archives s3)\<rparr>
           else s3)"
    by blast
  then have r4: "archives (syncArchives ''n1'' s3)
      = snapshot ''n1'' s3 # [legacyArchive (utf16 ''note''), mapArchive]"
    using n3 a3 by simp
  define s1 where "s1 = weekState [(''Mon'', [0x00A0, 0x3000])]"
  define s2 where "s2 = weekState [(''Mon'', utf16 '' ok'')]"
  have k1: "archives s1 = [legacyArchive (utf16 ''note'')] @ mapArchive # []
      \<and> weekStartDate mapArchive = currentWeekStartDate s1
      \<and> (\<forall>b\<in>set [legacyArchive (utf16 ''note'')]. weekStartDate b \<noteq> currentWeekStartDate s1)"
    by (simp add: s1_def weekState_def legacyArchive_def mapArchive_def)
  have k2: "archives s2 = [legacyArchive (utf16 ''note'')] @ mapArchive # []
      \<and> weekStartDate mapArchive = currentWeekStartDate s2
      \<and> (\<forall>b\<in>set [legacyArchive (utf16 ''note'')]. weekStartDate b \<noteq> currentWeekStartDate s2)"
    by (simp add: s2_def weekState_def legacyArchive_def mapArchive_def)
  have d1: "distinct (map weekStartDate (archives s1))"
    by (simp add: s1_def weekState_def legacyArchive_def mapArchive_def)
  have d2: "distinct (map weekStartDate (archives s2))"
    by (simp add: s2_def weekState_def legacyArchive_def mapArchive_def)
  have n1: "\<not> hasContent s1"
    by (simp add: s1_def weekState_def hasContent_def initialState_def trim_def isWhiteSpace_def)
  have n2: "hasContent s2"
    by (simp add: s2_def weekState_def hasContent_def initialState_def trim_def isWhiteSpace_def
        utf16_def)
  note t1 = archive_sync_invariant [of "''n1''" s1]
  note t2 = archive_sync_invariant [of "''n1''" s2]
  from t1 have e1: "\<forall>xs a ys. archives s1 = xs @ a # ys \<and> weekStartDate a = currentWeekStartDate s1
          \<and> (\<forall>b\<in>set xs. weekStartDate b \<noteq> currentWeekStartDate s1) \<longrightarrow>
        archives (syncArchives ''n1'' s1)
          = (if hasContent s1 then xs @ snapshot (archive_id a) s1 # ys else xs @ ys)"
    by (elim conjE)
  from t2 have e2: "\<forall>xs a ys. archives s2 = xs @ a # ys \<and> weekStartDate a = currentWeekStartDate s2
          \<and> (\<forall>b\<in>set xs. weekStartDate b \<noteq> currentWeekStartDate s2) \<longrightarrow>
        archives (syncArchives ''n1'' s2)
          = (if hasContent s2 then xs @ snapshot (archive_id a) s2 # ys else xs @ ys)"
    by (elim conjE)
  from e1 [rule_format, OF k1] n1
  have r1: "archives (syncArchives ''n1'' s1) = [legacyArchive (utf16 ''note'')]"
    by simp
  from e2 [rule_format, OF k2] n2
  have r2: "archives (syncArchives ''n1'' s2)
      = [legacyArchive (utf16 ''note''), snapshot (archive_id mapArchive) s2]"
    by simp
  have i: "archive_id mapArchive = ''a2''" by (simp add: mapArchive_def)
  from t2 d2 have r3: "distinct (map weekStartDate (archives (syncArchives ''n1'' s2)))" by blast
  from d1 n1 r1 n2 r2 r3 r4 show ?thesis unfolding s1_def s2_def s3_def i by (intro conjI)
qed

text \<open>
  Claim C2 as stated fails in its first part: the collection read from the device storage
  is taken as it is, and when it holds a week twice the collection in use holds it twice,
  also after the synchronization step, which rewrites the first of the two entries.
\<close>

theorem archive_duplicates_counterexample:
  "map weekStartDate (archives (loadData 0 parseFixture 0 0 (Some storedView) (Some storedTwice)
       (initialState 0 0))) = [''2025-01-13'', ''2025-01-13'']
   \<and> map weekStartDate (archives (autoSyncEffect ''n1''
        (loadData 0 parseFixture 0 0 (Some storedView) (Some storedTwice) (initialState 0 0))))
      = [''2025-01-13'', ''2025-01-13'']
   \<and> map archive_id (archives (autoSyncEffect ''n1''
        (loadData 0 parseFixture 0 0 (Some storedView) (Some storedTwice) (initialState 0 0))))
      = [''a2'', ''a3'']
   \<and> \<not> distinct (map weekStartDate (archives (autoSyncEffect ''n1''
        (loadData 0 parseFixture 0 0 (Some storedView) (Some storedTwice) (initialState 0 0)))))"
  by (simp add: loadData_def autoSyncEffect_def syncArchives_def findIndex_def hasContent_def
      storedTwice_def storedView_def mapArchive_def Let_def truthy_def initialState_def)

text \<open>
  Claim C5, as the code has it.  Selecting a week cuts the target at the first \<open>T\<close>.  If
  some archive's \<open>weekStartDate\<close> starts with that key, the first such archive's tasks and
  goals and its label are loaded, and its notes: as they are when stored as a map, none
  when absent (for a legacy string see C9); otherwise tasks, goals and notes become empty
  and the label is generated from the target.  In both cases the active \<open>weekStartDate\<close>
  becomes the key and the picker closes; nothing else changes, and no error is raised.
\<close>

theorem handleSelectWeek_loads:
  "handleSelectWeek tza Date_parse target s =
     (case find (\<lambda>a. prefix (splitT0 target) (weekStartDate a)) (archives s) of
        Some a \<Rightarrow>
          s\<lparr>tasks := archive_tasks a, goals := archive_goals a,
            dailyThoughts :=
              (case archive_dailyThoughts a of
                 None \<Rightarrow> []
               | Some (LegacyString str) \<Rightarrow> if str = [] then [] else [(''Mon'', str)]
               | Some (ThoughtsMap m) \<Rightarrow> m),
            currentWeekLabel := weekLabel a,
            currentWeekStartDate := splitT0 target, isHistoryOpen := False\<rparr>
      | None \<Rightarrow>
          s\<lparr>tasks := [], goals := [], dailyThoughts := [],
            currentWeekLabel := generateWeekLabelOf tza (Date_parse target),
            currentWeekStartDate := splitT0 target, isHistoryOpen := False\<rparr>)
   \<and> (\<forall>a m. find (\<lambda>a. prefix (splitT0 target) (weekStartDate a)) (archives s) = Some a
          \<and> archive_dailyThoughts a = Some (ThoughtsMap m)
        \<longrightarrow> dailyThoughts (handleSelectWeek tza Date_parse target s) = m)
   \<and> (\<forall>a. find (\<lambda>a. prefix (splitT0 target) (weekStartDate a)) (archives s) = Some a
          \<and> archive_dailyThoughts a = None
        \<longrightarrow> dailyThoughts (handleSelectWeek tza Date_parse target s) = [])
   \<and> currentWeekStartDate (handleSelectWeek tza Date_parse target s) = splitT0 target
   \<and> isHistoryOpen (handleSelectWeek tza Date_parse target s) = False"
  by (simp add: handleSelectWeek_def Let_def split: option.splits)

theorem handleSelectWeek_loads_witness:
  "find (\<lambda>a. prefix (splitT0 ''2025-01-13T00:00:00.000Z'') (weekStartDate a))
       (archives ((initialState 0 0)\<lparr>archives := [legacyArchive (utf16 ''note''), mapArchive]\<rparr>)) = Some mapArchive
   \<and> archive_dailyThoughts mapArchive = Some (ThoughtsMap [(''Tue'', utf16 ''ok'')])
   \<and> dailyThoughts (handleSelectWeek 0 (\<lambda>x. None) ''2025-01-13T00:00:00.000Z''
        ((initialState 0 0)\<lparr>archives := [legacyArchive (utf16 ''note''), mapArchive]\<rparr>)) = [(''Tue'', utf16 ''ok'')]
   \<and> currentWeekStartDate (handleSelectWeek 0 (\<lambda>x. None) ''2025-01-13T00:00:00.000Z''
        ((initialState 0 0)\<lparr>archives := [legacyArchive (utf16 ''note''), mapArchive]\<rparr>)) = ''2025-01-13''"
proof -
  define s where "s = (initialState 0 0)\<lparr>archives := [legacyArchive (utf16 ''note''), mapArchive]\<rparr>"
  have k: "splitT0 ''2025-01-13T00:00:00.000Z'' = ''2025-01-13''" by (simp add: splitT0_def)
  have h: "find (\<lambda>a. prefix (splitT0 ''2025-01-13T00:00:00.000Z'') (weekStartDate a)) (archives s) = Some mapArchive
      \<and> archive_dailyThoughts mapArchive = Some (ThoughtsMap [(''Tue'', utf16 ''ok'')])"
    by (simp add: k s_def legacyArchive_def mapArchive_def)
  note t = handleSelectWeek_loads [where tza = 0 and Date_parse = "\<lambda>x. None"
      and target = "''2025-01-13T00:00:00.000Z''" and s = s]
  from t h have "dailyThoughts (handleSelectWeek 0 (\<lambda>x. None) ''2025-01-13T00:00:00.000Z'' s) = [(''Tue'', utf16 ''ok'')]"
    by blast
  moreover from t have "currentWeekStartDate (handleSelectWeek 0 (\<lambda>x. None) ''2025-01-13T00:00:00.000Z'' s)
      = splitT0 ''2025-01-13T00:00:00.000Z''" by blast
  ultimately show ?thesis using h unfolding s_def k by simp
qed

text \<open>
  Claim C5 as stated fails for an archive in the legacy shape: its notes, one string, are
  not loaded as they are stored but as the entry for Monday.
\<close>

theorem handleSelectWeek_legacy_counterexample:
  "find (\<lambda>a. prefix (splitT0 ''2025-01-06'') (weekStartDate a))
       (archives ((initialState 0 0)\<lparr>archives := [legacyArchive (utf16 ''note''), mapArchive]\<rparr>))
     = Some (legacyArchive (utf16 ''note''))
   \<and> Some (ThoughtsMap (dailyThoughts (handleSelectWeek 0 (\<lambda>x. None) ''2025-01-06''
        ((initialState 0 0)\<lparr>archives := [legacyArchive (utf16 ''note''), mapArchive]\<rparr>))))
     \<noteq> archive_dailyThoughts (legacyArchive (utf16 ''note''))
   \<and> dailyThoughts (handleSelectWeek 0 (\<lambda>x. None) ''2025-01-06''
        ((initialState 0 0)\<lparr>archives := [legacyArchive (utf16 ''note''), mapArchive]\<rparr>)) = [(''Mon'', utf16 ''note'')]"
  by (simp add: handleSelectWeek_def legacyArchive_def mapArchive_def splitT0_def Let_def utf16_def)

text \<open>
  Claim C9, as the code has it.  Loading a current-view record whose \<open>dailyThoughts\<close> is a
  string gives the one-entry map from today's day label to that string.  Selecting an
  archived week whose \<open>dailyThoughts\<close> is a non-empty string gives the one-entry map from
  \<open>Mon\<close> to that string; for the empty string it gives the empty map.
\<close>

theorem legacy_thoughts_loading:
  "(saved_dailyThoughts parsed = Some (LegacyString str) \<longrightarrow>
      dailyThoughts (loadData tza Date_parse now now' (Some parsed) savedHistory s)
        = [(DAYS_OF_WEEK ! nat (getCurrentDayIndex tza now), str)]
      \<and> DAYS_OF_WEEK ! nat (getCurrentDayIndex tza now) \<in> set DAYS_OF_WEEK)
   \<and> (find (\<lambda>a. prefix (splitT0 target) (weekStartDate a)) (archives s) = Some a
        \<and> archive_dailyThoughts a = Some (LegacyString str) \<and> str \<noteq> [] \<longrightarrow>
      dailyThoughts (handleSelectWeek tza Date_parse target s) = [(''Mon'', str)])
   \<and> (find (\<lambda>a. prefix (splitT0 target) (weekStartDate a)) (archives s) = Some a
        \<and> archive_dailyThoughts a = Some (LegacyString []) \<longrightarrow>
      dailyThoughts (handleSelectWeek tza Date_parse target s) = [])"
proof -
  have "nat (getCurrentDayIndex tza now) < length DAYS_OF_WEEK"
    using todayIndex_range [of tza now] by (simp add: DAYS_OF_WEEK_def)
  then have "DAYS_OF_WEEK ! nat (getCurrentDayIndex tza now) \<in> set DAYS_OF_WEEK"
    by (rule nth_mem)
  then show ?thesis
    by (simp add: loadData_def handleSelectWeek_def Let_def getCurrentDayIndex_def)
qed

theorem legacy_thoughts_loading_witness:
  "dailyThoughts (loadData 0 (\<lambda>x. None) 0 0
       (Some \<lparr>saved_tasks = None, saved_goals = None, saved_dailyThoughts = Some (LegacyString (utf16 ''note'')),
              saved_currentWeekStartDate = None, saved_weekLabel = None\<rparr>) None
       ((initialState 0 0)\<lparr>archives := [legacyArchive (utf16 ''note'')]\<rparr>))
     = [(''Thu'', utf16 ''note'')]
   \<and> dailyThoughts (handleSelectWeek 0 (\<lambda>x. None) ''2025-01-06''
        ((initialState 0 0)\<lparr>archives := [legacyArchive (utf16 ''note'')]\<rparr>)) = [(''Mon'', utf16 ''note'')]"
proof -
  define parsed where "parsed = \<lparr>saved_tasks = None, saved_goals = None,
     saved_dailyThoughts = Some (LegacyString (utf16 ''note'')),
     saved_currentWeekStartDate = None, saved_weekLabel = None\<rparr>"
  define s where "s = (initialState 0 0)\<lparr>archives := [legacyArchive (utf16 ''note'')]\<rparr>"
  have h1: "saved_dailyThoughts parsed = Some (LegacyString (utf16 ''note''))" by (simp add: parsed_def)
  have h2: "find (\<lambda>a. prefix (splitT0 ''2025-01-06'') (weekStartDate a)) (archives s) = Some (legacyArchive (utf16 ''note''))
      \<and> archive_dailyThoughts (legacyArchive (utf16 ''note'')) = Some (LegacyString (utf16 ''note'')) \<and> utf16 ''note'' \<noteq> []"
    by (simp add: s_def legacyArchive_def splitT0_def utf16_def)
  have d: "DAYS_OF_WEEK ! nat (getCurrentDayIndex 0 0) = ''Thu''"
    by (simp add: getCurrentDayIndex_def getDay_def WeekDay_def LocalTime_def Day_def DAYS_OF_WEEK_def)
  note t = legacy_thoughts_loading [where parsed = parsed and str = "utf16 ''note''" and tza = 0
      and Date_parse = "\<lambda>x. None" and now = 0 and now' = 0 and savedHistory = None and s = s
      and target = "''2025-01-06''" and a = "legacyArchive (utf16 ''note'')"]
  from t h1 have "dailyThoughts (loadData 0 (\<lambda>x. None) 0 0 (Some parsed) None s)
        = [(DAYS_OF_WEEK ! nat (getCurrentDayIndex 0 0), utf16 ''note'')]" by blast
  moreover from t h2 have "dailyThoughts (handleSelectWeek 0 (\<lambda>x. None) ''2025-01-06'' s) = [(''Mon'', utf16 ''note'')]"
    by blast
  ultimately show ?thesis unfolding parsed_def s_def d by simp
qed

text \<open>
  Claim C9 as stated fails for an archived week whose legacy string is empty: the map
  loaded has no entry.
\<close>

theorem legacy_empty_archive_counterexample:
  "archive_dailyThoughts (legacyArchive []) = Some (LegacyString [])
   \<and> find (\<lambda>a. prefix (splitT0 ''2025-01-06'') (weekStartDate a))
        (archives ((initialState 0 0)\<lparr>archives := [legacyArchive []]\<rparr>)) = Some (legacyArchive [])
   \<and> dailyThoughts (handleSelectWeek 0 (\<lambda>x. None) ''2025-01-06''
        ((initialState 0 0)\<lparr>archives := [legacyArchive []]\<rparr>)) \<noteq> [(''Mon'', [])]"
  by (simp add: handleSelectWeek_def legacyArchive_def splitT0_def Let_def)

end
